theory Spec2Isabelle
  imports Complex_Main "HOL-Library.Word" "HOL-Library.Log_Nat"
begin

section \<open>JavaScript string primitives used by the crawler utilities\<close>

text \<open>
  Strings are \<^typ>\<open>string\<close>, one character for each code unit: the host names,
  URLs and option values of the crawler are ASCII. The functions below are the parts of the JavaScript
  string library that \<^verbatim>\<open>storage.js\<close> and \<^verbatim>\<open>argParser.js\<close> call:
  \<^verbatim>\<open>startsWith\<close>, \<^verbatim>\<open>indexOf\<close>, \<^verbatim>\<open>split\<close> on a one-character
  separator, \<^verbatim>\<open>join\<close>, \<^verbatim>\<open>slice(-n)\<close> and \<^verbatim>\<open>replace\<close> with a string
  pattern.
\<close>

definition startsWith :: "string \<Rightarrow> string \<Rightarrow> bool" where
  "startsWith s p = (take (length p) s = p)"

fun js_indexOf :: "string \<Rightarrow> string \<Rightarrow> nat option" where
  "js_indexOf [] pat = (if pat = [] then Some 0 else None)"
| "js_indexOf (c # cs) pat =
     (if startsWith (c # cs) pat then Some 0 else map_option Suc (js_indexOf cs pat))"

fun js_split :: "char \<Rightarrow> string \<Rightarrow> string list" where
  "js_split sep [] = [[]]"
| "js_split sep (c # cs) =
     (if c = sep then [] # js_split sep cs
      else (case js_split sep cs of
              [] \<Rightarrow> [[c]]
            | w # ws \<Rightarrow> (c # w) # ws))"

fun js_join :: "string \<Rightarrow> string list \<Rightarrow> string" where
  "js_join sep [] = []"
| "js_join sep [x] = x"
| "js_join sep (x # y # ys) = x @ sep @ js_join sep (y # ys)"

definition slice_last :: "nat \<Rightarrow> string \<Rightarrow> string" where
  \<comment> \<open>\<^verbatim>\<open>s.slice(-n)\<close>: the last \<open>n\<close> characters, the whole string when it is shorter.\<close>
  "slice_last n s = drop (length s - n) s"

text \<open>
  \<^verbatim>\<open>String.prototype.replace(pattern, replacement)\<close> with a string pattern replaces the
  first occurrence only, and the replacement string is expanded by the language's
  \<^verbatim>\<open>GetSubstitution\<close>: \<^verbatim>\<open>$$\<close> is a dollar sign, \<^verbatim>\<open>$&\<close> the matched text,
  \<^verbatim>\<open>$`\<close> the text before the match and \<^verbatim>\<open>$'\<close> the text after it. A string
  pattern has no capture groups, so \<^verbatim>\<open>$1\<close> and the like stay as they are.
\<close>

fun GetSubstitution :: "string \<Rightarrow> string \<Rightarrow> nat \<Rightarrow> string \<Rightarrow> string" where
  "GetSubstitution matched str position [] = []"
| "GetSubstitution matched str position (c # r) =
     (if c = CHR ''$'' then
        (case r of
           [] \<Rightarrow> [c]
         | d # r' \<Rightarrow>
             if d = CHR ''$'' then CHR ''$'' # GetSubstitution matched str position r'
             else if d = CHR ''&'' then matched @ GetSubstitution matched str position r'
             else if d = CHR 0x60 then take position str @ GetSubstitution matched str position r'
             else if d = CHR 0x27 then
               drop (position + length matched) str @ GetSubstitution matched str position r'
             else c # GetSubstitution matched str position r)
      else c # GetSubstitution matched str position r)"

definition js_replace :: "string \<Rightarrow> string \<Rightarrow> string \<Rightarrow> string" where
  \<comment> \<open>\<^verbatim>\<open>s.replace(pat, rep)\<close>\<close>
  "js_replace s pat rep =
     (case js_indexOf s pat of
        None \<Rightarrow> s
      | Some i \<Rightarrow> take i s @ GetSubstitution pat s i rep @ drop (i + length pat) s)"

section \<open>storage.js: file name interpolation\<close>

text \<open>
  The host the crawler runs on: \<open>hostname\<close> is what \<^verbatim>\<open>os.hostname()\<close> returns and
  \<open>now_iso\<close> what \<^verbatim>\<open>new Date().toISOString()\<close> returns at the call.
\<close>

record host =
  hostname :: string
  now_iso :: string

definition strip_ts :: "string \<Rightarrow> string" where
  \<comment> \<open>\<^verbatim>\<open>.replace(/[:TZz.-]/g, "")\<close>\<close>
  "strip_ts s = filter (\<lambda>c. c \<notin> set '':TZz.-'') s"

definition interpolateFilename :: "host \<Rightarrow> string \<Rightarrow> string \<Rightarrow> string" where
  "interpolateFilename h filename crawlId =
     (let filename = js_replace filename ''@ts'' (strip_ts (now_iso h));
          filename = js_replace filename ''@hostname'' (hostname h);
          filename = js_replace filename ''@hostsuffix'' (slice_last 14 (hostname h));
          filename = js_replace filename ''@id'' crawlId
      in filename)"


section \<open>JavaScript values and JSON documents\<close>

text \<open>
  Values whose type the source decides at run time. Object properties are kept in
  insertion order; the language moves keys that are written like integers to the front,
  which is not modelled.
\<close>

datatype jsval =
    Undefined
  | Null
  | Bool bool
  | Num int
  | Str string
  | Arr "jsval list"
  | Obj "(string \<times> jsval) list"

text \<open>
  \<^verbatim>\<open>JSON.stringify\<close> is modelled up to the document it writes: the text is a rendering
  of a \<open>json\<close> value. A property whose value is \<^verbatim>\<open>undefined\<close> is left out of an
  object, and an \<^verbatim>\<open>undefined\<close> array element is written as \<^verbatim>\<open>null\<close>.
\<close>

datatype json =
    JNull
  | JBool bool
  | JNum int
  | JStr string
  | JArr "json list"
  | JObj "(string \<times> json) list"

fun stringify_val :: "jsval \<Rightarrow> json option"
  and stringify_elems :: "jsval list \<Rightarrow> json list"
  and stringify_props :: "(string \<times> jsval) list \<Rightarrow> (string \<times> json) list" where
  "stringify_val Undefined = None"
| "stringify_val Null = Some JNull"
| "stringify_val (Bool b) = Some (JBool b)"
| "stringify_val (Num n) = Some (JNum n)"
| "stringify_val (Str s) = Some (JStr s)"
| "stringify_val (Arr xs) = Some (JArr (stringify_elems xs))"
| "stringify_val (Obj ps) = Some (JObj (stringify_props ps))"
| "stringify_elems [] = []"
| "stringify_elems (x # xs) =
     (case stringify_val x of None \<Rightarrow> JNull | Some j \<Rightarrow> j) # stringify_elems xs"
| "stringify_props [] = []"
| "stringify_props (kv # ps) =
     (case stringify_val (snd kv) of
        None \<Rightarrow> stringify_props ps
      | Some j \<Rightarrow> (fst kv, j) # stringify_props ps)"

definition JSON_stringify :: "(string \<times> jsval) list \<Rightarrow> json" where
  \<comment> \<open>\<^verbatim>\<open>JSON.stringify\<close> of an object\<close>
  "JSON_stringify props = JObj (stringify_props props)"

definition opt_str :: "string option \<Rightarrow> jsval" where
  \<comment> \<open>a string that may be \<^verbatim>\<open>undefined\<close>\<close>
  "opt_str x = (case x of None \<Rightarrow> Undefined | Some s \<Rightarrow> Str s)"

section \<open>storage.js: upload, digest and webhook\<close>

type_synonym byte = "8 word"

record S3StorageSync =
  fullPrefix :: string
  bucketName :: string
  objectPrefix :: string
  userId :: "string option"
  crawlId :: "string option"
  webhookUrl :: "string option"

record resource =
  path :: string
  hash :: string
  bytes :: nat

text \<open>
  The calls that leave the process, in the order they are attempted, and the console
  output. \<open>FPutObject bucket key file\<close> is the object-store upload, \<open>ReadStream\<close> and
  \<open>Stat\<close> read the local file system, \<open>Fetch\<close> is the HTTP POST, \<open>InitRedis\<close> and
  \<open>RPush\<close> are the queue operations.
\<close>

datatype event =
    ConsoleLog string
  | ConsoleLogResource resource
  | FPutObject string string string
  | ReadStream string
  | Stat string
  | Fetch string json
  | InitRedis string
  | RPush string string json

datatype storage_error =
    CallFailed event
  | NoSuchFile string
  | RedisWebhookFormat

text \<open>
  The world the storage client acts on: the local files, the objects in the store, the
  lists of each queue server (by connection URL, then by key), the HTTP requests
  delivered, and the calls attempted so far. \<open>rejects\<close> says which outside calls fail.
\<close>

record world =
  files :: "string \<rightharpoonup> byte list"
  objects :: "string \<times> string \<rightharpoonup> byte list"
  redis_lists :: "string \<Rightarrow> string \<Rightarrow> json list"
  delivered :: "(string \<times> json) list"
  rejects :: "event \<Rightarrow> bool"
  trace :: "event list"

type_synonym 'a io = "world \<Rightarrow> (storage_error + 'a) \<times> world"

definition attempt :: "event \<Rightarrow> world \<Rightarrow> world" where
  "attempt e w = w\<lparr>trace := trace w @ [e]\<rparr>"

definition console_log :: "string \<Rightarrow> world \<Rightarrow> world" where
  "console_log s w = attempt (ConsoleLog s) w"

definition fPutObject :: "string \<Rightarrow> string \<Rightarrow> string \<Rightarrow> unit io" where
  "fPutObject bucket key file w =
     (let w = attempt (FPutObject bucket key file) w in
      case files w file of
        None \<Rightarrow> (Inl (NoSuchFile file), w)
      | Some content \<Rightarrow>
          if rejects w (FPutObject bucket key file)
          then (Inl (CallFailed (FPutObject bucket key file)), w)
          else (Inr (), w\<lparr>objects := (objects w)((bucket, key) \<mapsto> content)\<rparr>))"

text \<open>
  A read stream hands the file over in chunks of at most \<open>highWaterMark\<close> bytes; the
  hash object keeps what it has been fed, and \<open>digest("hex")\<close> writes the digest of all
  of it in lower-case hexadecimal. The hash algorithms themselves belong to the
  \<^verbatim>\<open>crypto\<close> library: \<open>createHash name\<close> is the digest function of that name.
\<close>

function chunked :: "nat \<Rightarrow> 'a list \<Rightarrow> 'a list list" where
  "chunked n xs = (if n = 0 \<or> xs = [] then [] else take n xs # chunked n (drop n xs))"
  by pat_completeness auto
termination
  by (relation "measure (\<lambda>(n, xs). length xs)") auto

declare chunked.simps [simp del]

definition highWaterMark :: nat where
  "highWaterMark = 65536"

definition hex_digit :: "nat \<Rightarrow> char" where
  "hex_digit n = ''0123456789abcdef'' ! (n mod 16)"

definition hex :: "byte list \<Rightarrow> string" where
  "hex bs = concat (map (\<lambda>b. [hex_digit (unat b div 16), hex_digit (unat b mod 16)]) bs)"

definition hash_update :: "byte list \<Rightarrow> byte list \<Rightarrow> byte list" where
  "hash_update fed chunk = fed @ chunk"

definition checksumFile ::
  "(string \<Rightarrow> byte list \<Rightarrow> byte list) \<Rightarrow> string \<Rightarrow> string \<Rightarrow> string io" where
  "checksumFile createHash hashName file w =
     (let w = attempt (ReadStream file) w in
      case files w file of
        None \<Rightarrow> (Inl (NoSuchFile file), w)
      | Some content \<Rightarrow>
          if rejects w (ReadStream file) then (Inl (CallFailed (ReadStream file)), w)
          else (Inr (hex (createHash hashName
                  (foldl hash_update [] (chunked highWaterMark content)))), w))"

definition getFileSize :: "string \<Rightarrow> nat io" where
  "getFileSize file w =
     (let w = attempt (Stat file) w in
      case files w file of
        None \<Rightarrow> (Inl (NoSuchFile file), w)
      | Some content \<Rightarrow>
          if rejects w (Stat file) then (Inl (CallFailed (Stat file)), w)
          else (Inr (length content), w))"

definition show_opt :: "string option \<Rightarrow> string" where
  \<comment> \<open>a possibly undefined string inside a template literal\<close>
  "show_opt x = (case x of None \<Rightarrow> ''undefined'' | Some s \<Rightarrow> s)"

definition uploadFile ::
  "(string \<Rightarrow> byte list \<Rightarrow> byte list) \<Rightarrow> S3StorageSync \<Rightarrow> string \<Rightarrow> string \<Rightarrow> resource io" where
  "uploadFile createHash this srcFilename targetFilename w =
     (let w = console_log (''Bucket: '' @ bucketName this) w;
          w = console_log (''Crawl Id: '' @ show_opt (crawlId this)) w;
          w = console_log (''Prefix: '' @ objectPrefix this) w;
          w = console_log (''Target Filename: '' @ targetFilename) w
      in case fPutObject (bucketName this) (objectPrefix this @ targetFilename) srcFilename w of
           (Inl e, w) \<Rightarrow> (Inl e, w)
         | (Inr _, w) \<Rightarrow>
             (case checksumFile createHash ''sha256'' srcFilename w of
                (Inl e, w) \<Rightarrow> (Inl e, w)
              | (Inr finalHash, w) \<Rightarrow>
                  (case getFileSize srcFilename w of
                     (Inl e, w) \<Rightarrow> (Inl e, w)
                   | (Inr size', w) \<Rightarrow>
                       (Inr \<lparr>path = targetFilename, hash = finalHash, bytes = size'\<rparr>, w))))"

definition notification :: "S3StorageSync \<Rightarrow> string \<Rightarrow> bool \<Rightarrow> resource \<Rightarrow> (string \<times> jsval) list" where
  \<comment> \<open>the object \<^verbatim>\<open>body\<close>\<close>
  "notification this targetFilename completed res =
     [(''id'', opt_str (crawlId this)),
      (''user'', opt_str (userId this)),
      (''filename'', Str (fullPrefix this @ targetFilename)),
      (''hash'', Str (hash res)),
      (''size'', Num (int (bytes res))),
      (''completed'', Bool completed)]"

definition fetch_post :: "string \<Rightarrow> json \<Rightarrow> unit io" where
  "fetch_post url doc w =
     (let w = attempt (Fetch url doc) w in
      if rejects w (Fetch url doc) then (Inl (CallFailed (Fetch url doc)), w)
      else (Inr (), w\<lparr>delivered := delivered w @ [(url, doc)]\<rparr>))"

definition initRedis :: "string \<Rightarrow> string io" where
  "initRedis url w =
     (let w = attempt (InitRedis url) w in
      if rejects w (InitRedis url) then (Inl (CallFailed (InitRedis url)), w)
      else (Inr url, w))"

definition rpush :: "string \<Rightarrow> string \<Rightarrow> json \<Rightarrow> unit io" where
  "rpush conn key doc w =
     (let w = attempt (RPush conn key doc) w in
      if rejects w (RPush conn key doc) then (Inl (CallFailed (RPush conn key doc)), w)
      else (Inr (),
            w\<lparr>redis_lists := (redis_lists w)(conn := (redis_lists w conn)(key :=
                 redis_lists w conn key @ [doc]))\<rparr>))"

definition dispatchWebhook :: "S3StorageSync \<Rightarrow> string \<Rightarrow> bool \<Rightarrow> resource \<Rightarrow> unit io" where
  \<comment> \<open>the block \<^verbatim>\<open>if (this.webhookUrl) { ... }\<close> of \<^verbatim>\<open>uploadCollWACZ\<close>\<close>
  "dispatchWebhook this targetFilename completed res w =
     (case webhookUrl this of
        None \<Rightarrow> (Inr (), w)
      | Some url \<Rightarrow>
          if url = [] then (Inr (), w)
          else
            (let body = notification this targetFilename completed res;
                 w = console_log (''Pinging Webhook: '' @ url) w
             in if startsWith url ''http://'' \<or> startsWith url ''https://'' then
                  fetch_post url (JSON_stringify body) w
                else if startsWith url ''redis://'' then
                  (let parts = js_split CHR ''/'' url in
                   if length parts \<noteq> 5 then (Inl RedisWebhookFormat, w)
                   else
                     (case initRedis (js_join ''/'' (take 4 parts)) w of
                        (Inl e, w) \<Rightarrow> (Inl e, w)
                      | (Inr redis, w) \<Rightarrow> rpush redis (parts ! 4) (JSON_stringify body) w))
                else (Inr (), w)))"

definition uploadCollWACZ ::
  "(string \<Rightarrow> byte list \<Rightarrow> byte list) \<Rightarrow> S3StorageSync \<Rightarrow> string \<Rightarrow> string \<Rightarrow> bool \<Rightarrow> unit io" where
  "uploadCollWACZ createHash this srcFilename targetFilename completed w =
     (case uploadFile createHash this srcFilename targetFilename w of
        (Inl e, w) \<Rightarrow> (Inl e, w)
      | (Inr res, w) \<Rightarrow>
          dispatchWebhook this targetFilename completed res (attempt (ConsoleLogResource res) w))"


section \<open>Numbers\<close>

text \<open>
  A number of the language is an IEEE 754 double: not a number, an infinity with its
  sign, negative zero, or a finite value, given here by the rational it stands for
  (\<open>Fin 0\<close> is positive zero). The product of two numbers is the exact product rounded
  to the nearest double, ties to the even significand: the unit in the last place of a
  value between \<open>2 ^ e\<close> and \<open>2 ^ (e + 1)\<close> is \<open>2 ^ (e - 52)\<close>, never below \<open>2 ^ (-1074)\<close>,
  and a result of magnitude \<open>2 ^ 1024\<close> or more, which is one of exponent 1024 or
  more, is an infinity. \<open>ilog2 q\<close> is the exponent \<open>e\<close> with \<open>2 ^ e \<le> q < 2 ^ (e + 1)\<close>
  of a positive \<open>q\<close>.
\<close>

datatype number = NaN | Infinity bool | NegZero | Fin rat

definition ilog2 :: "rat \<Rightarrow> int" where
  "ilog2 q = (let e = bitlen (fst (quotient_of q)) - bitlen (snd (quotient_of q))
              in if 2 powi e \<le> q then e else e - 1)"

definition round_half_even :: "rat \<Rightarrow> int" where
  "round_half_even x =
     (let f = \<lfloor>x\<rfloor>; d = x - of_int f
      in if d < 1 / 2 then f else if 1 / 2 < d then f + 1 else if even f then f else f + 1)"

definition signed_zero :: "bool \<Rightarrow> number" where
  "signed_zero neg = (if neg then NegZero else Fin 0)"

definition round_double :: "bool \<Rightarrow> rat \<Rightarrow> number" where
  "round_double neg q =
     (if q = 0 then signed_zero neg
      else
        (let e = max (ilog2 \<bar>q\<bar>) (- 1022);
             ulp = 2 powi (e - 52);
             r = of_int (round_half_even (q / ulp)) * ulp
         in if r = 0 then signed_zero neg
            else if 1024 \<le> ilog2 \<bar>r\<bar> then Infinity neg
            else Fin r))"

definition is_neg :: "number \<Rightarrow> bool" where
  "is_neg x = (case x of NaN \<Rightarrow> False | Infinity s \<Rightarrow> s | NegZero \<Rightarrow> True | Fin q \<Rightarrow> q < 0)"

definition magnitude :: "number \<Rightarrow> rat option" where
  "magnitude x = (case x of NaN \<Rightarrow> None | Infinity s \<Rightarrow> None | NegZero \<Rightarrow> Some 0 | Fin q \<Rightarrow> Some q)"

definition js_mul :: "number \<Rightarrow> number \<Rightarrow> number" where
  "js_mul x y =
     (if x = NaN \<or> y = NaN then NaN
      else case (magnitude x, magnitude y) of
             (Some p, Some q) \<Rightarrow> round_double (is_neg x \<noteq> is_neg y) (p * q)
           | (Some p, None) \<Rightarrow> if p = 0 then NaN else Infinity (is_neg x \<noteq> is_neg y)
           | (None, Some q) \<Rightarrow> if q = 0 then NaN else Infinity (is_neg x \<noteq> is_neg y)
           | (None, None) \<Rightarrow> Infinity (is_neg x \<noteq> is_neg y))"

section \<open>argParser.js: validateArgs\<close>

text \<open>
  An option that the command line gives as a string and a configuration file may give as
  a list of strings.
\<close>

datatype strs = OneStr string | StrArr "string list"

datatype seed = SeedUrl string | SeedObj "(string \<times> jsval) list"

datatype seeds = SeedsStr string | SeedsArr "seed list"

datatype concurrency = CtxNull | CtxStr string | ReuseWindowConcurrency | CONCURRENCY_PAGE

datatype console_msg =
    ScreenshotNotFound string
  | NewContextDeprecated
  | WindowContext
  | PageContext
  | SetNetIdleWait int
  | ScopeOverrideWarning

datatype config_error =
    InvalidCollection string
  | InvalidWaitUntil
  | UnknownDevice string
  | ReadFileError string
  | SeedError string
  | TypeError

text \<open>
  What \<^verbatim>\<open>validateArgs\<close> takes from outside \<^verbatim>\<open>argParser.js\<close>: the host, the two
  constants of \<^verbatim>\<open>constants.js\<close>, the test \<^verbatim>\<open>element in screenshotTypes\<close>, the device
  table of the browser library, the file system as \<^verbatim>\<open>fs.readFileSync\<close> sees it, the
  constructor of \<^verbatim>\<open>ScopedSeed\<close> and \<^verbatim>\<open>path.resolve\<close>.
\<close>

record deps =
  os :: host
  WAIT_UNTIL_OPTS :: "string list"
  BEHAVIOR_LOG_FUNC :: string
  screenshotTypes :: "string \<Rightarrow> bool"
  devices :: "string \<Rightarrow> jsval"
  readFileSync :: "string \<rightharpoonup> string"
  ScopedSeed :: "(string \<times> jsval) list \<Rightarrow> config_error + jsval"
  path_resolve :: "string \<Rightarrow> string \<Rightarrow> string"

text \<open>
  The options \<^verbatim>\<open>validateArgs\<close> reads or writes, with the types \<^verbatim>\<open>cliOpts\<close> declares.
  \<open>timeout\<close> is a number of the language, with its rounding; the other numeric options
  are integers.
  \<open>behaviorOpts\<close> is the JSON document written by \<^verbatim>\<open>JSON.stringify\<close>, absent before
  the call.
\<close>

record argv =
  collection :: string
  crawlId :: string
  timeout :: number
  waitUntil :: strs
  screenshot :: strs
  logging :: strs
  behaviors :: strs
  behaviorTimeout :: int
  behaviorsLogDebug :: bool
  behaviorOpts :: "json option"
  newContext :: concurrency
  workers :: int
  mobileDevice :: "string option"
  emulateDevice :: jsval
  seedFile :: "string option"
  seeds :: seeds
  netIdleWait :: int
  scopeType :: "string option"
  include' :: "strs option"
  exclude :: "strs option"
  sitemap :: jsval
  depth :: int
  extraHops :: int
  scopedSeeds :: "jsval list"
  statsFilename :: jsval
  cwd :: string

text \<open>The options together with what has been written to the console so far.\<close>

record resolver = argv +
  console :: "console_msg list"

definition and_then :: "'e + 'a \<Rightarrow> ('a \<Rightarrow> 'e + 'b) \<Rightarrow> 'e + 'b" where
  "and_then m f = (case m of Inl e \<Rightarrow> Inl e | Inr a \<Rightarrow> f a)"

definition truthy :: "jsval \<Rightarrow> bool" where
  "truthy v = (case v of
       Undefined \<Rightarrow> False
     | Null \<Rightarrow> False
     | Bool b \<Rightarrow> b
     | Num n \<Rightarrow> n \<noteq> 0
     | Str s \<Rightarrow> s \<noteq> []
     | Arr _ \<Rightarrow> True
     | Obj _ \<Rightarrow> True)"

definition truthy_str :: "string option \<Rightarrow> bool" where
  "truthy_str x = (case x of None \<Rightarrow> False | Some s \<Rightarrow> s \<noteq> [])"

definition truthy_strs :: "strs \<Rightarrow> bool" where
  "truthy_strs x = (case x of OneStr s \<Rightarrow> s \<noteq> [] | StrArr _ \<Rightarrow> True)"

definition js_includes :: "strs \<Rightarrow> string \<Rightarrow> bool" where
  \<comment> \<open>\<^verbatim>\<open>x.includes(y)\<close>: membership in an array, containment in a string\<close>
  "js_includes x y = (case x of OneStr s \<Rightarrow> js_indexOf s y \<noteq> None | StrArr xs \<Rightarrow> y \<in> set xs)"

definition split_unless_object :: "strs \<Rightarrow> string list" where
  \<comment> \<open>\<^verbatim>\<open>if (typeof x != "object") x = x.split(",")\<close>\<close>
  "split_unless_object x = (case x of OneStr s \<Rightarrow> js_split CHR '','' s | StrArr xs \<Rightarrow> xs)"

fun obj_set :: "(string \<times> 'v) list \<Rightarrow> string \<Rightarrow> 'v \<Rightarrow> (string \<times> 'v) list" where
  "obj_set [] k v = [(k, v)]"
| "obj_set (kv # ps) k v = (if fst kv = k then (k, v) # ps else kv # obj_set ps k v)"

fun obj_spread :: "(string \<times> 'v) list \<Rightarrow> (string \<times> 'v) list \<Rightarrow> (string \<times> 'v) list" where
  \<comment> \<open>\<^verbatim>\<open>{...a, ...b}\<close>\<close>
  "obj_spread a [] = a"
| "obj_spread a (kv # b) = obj_spread (obj_set a (fst kv) (snd kv)) b"

subsection \<open>Collection name\<close>

definition word_char :: "char \<Rightarrow> bool" where
  \<comment> \<open>the class \<^verbatim>\<open>\w\<close> of a regular expression without flags\<close>
  "word_char c =
     (let n = (of_char c :: nat)
      in (48 \<le> n \<and> n \<le> 57) \<or> (65 \<le> n \<and> n \<le> 90) \<or> n = 95 \<or> (97 \<le> n \<and> n \<le> 122))"

definition collection_rx_search :: "string \<Rightarrow> int" where
  \<comment> \<open>\<^verbatim>\<open>s.search(/^[\w][\w-]*$/)\<close>: the index of the match, \<open>-1\<close> without one\<close>
  "collection_rx_search s =
     (case s of
        [] \<Rightarrow> -1
      | c # cs \<Rightarrow>
          if word_char c \<and> list_all (\<lambda>d. word_char d \<or> d = CHR ''-'') cs then 0 else -1)"

definition check_collection :: "deps \<Rightarrow> resolver \<Rightarrow> config_error + resolver" where
  "check_collection d argv =
     (let argv = argv\<lparr>collection := interpolateFilename (os d) (collection argv) (crawlId argv)\<rparr>
      in if collection_rx_search (collection argv) = -1
         then Inl (InvalidCollection (collection argv))
         else Inr argv)"

subsection \<open>Timeout and wait conditions\<close>

definition convert_timeout :: "resolver \<Rightarrow> config_error + resolver" where
  "convert_timeout argv = Inr (argv\<lparr>timeout := js_mul (timeout argv) (Fin 1000)\<rparr>)"

fun waitUntil_loop :: "string list \<Rightarrow> string list \<Rightarrow> config_error + unit" where
  "waitUntil_loop opts [] = Inr ()"
| "waitUntil_loop opts (opt # rest) =
     (if opt \<notin> set opts then Inl InvalidWaitUntil else waitUntil_loop opts rest)"

definition check_waitUntil :: "deps \<Rightarrow> resolver \<Rightarrow> config_error + resolver" where
  "check_waitUntil d argv =
     (let argv = argv\<lparr>waitUntil := StrArr (split_unless_object (waitUntil argv))\<rparr>
      in and_then (waitUntil_loop (WAIT_UNTIL_OPTS d) (split_unless_object (waitUntil argv)))
           (\<lambda>_. Inr argv))"

subsection \<open>Screenshot and logging options\<close>

fun screenshot_loop ::
  "(string \<Rightarrow> bool) \<Rightarrow> string list \<times> console_msg list \<Rightarrow> string list \<Rightarrow>
   string list \<times> console_msg list" where
  "screenshot_loop known (kept, out) [] = (kept, out)"
| "screenshot_loop known (kept, out) (element # rest) =
     (if known element then screenshot_loop known (kept @ [element], out) rest
      else screenshot_loop known (kept, out @ [ScreenshotNotFound element]) rest)"

definition validate_screenshot :: "deps \<Rightarrow> resolver \<Rightarrow> config_error + resolver" where
  "validate_screenshot d argv =
     (if truthy_strs (screenshot argv) then
        (case screenshot argv of
           StrArr _ \<Rightarrow> Inl TypeError
         | OneStr s \<Rightarrow>
             (let passedScreenshotTypes = js_split CHR '','' s;
                  (kept, out) = screenshot_loop (screenshotTypes d) ([], console argv)
                                  passedScreenshotTypes
              in Inr (argv\<lparr>screenshot := StrArr kept, console := out\<rparr>)))
      else Inr argv)"

definition split_logging :: "resolver \<Rightarrow> config_error + resolver" where
  "split_logging argv =
     (case logging argv of
        StrArr _ \<Rightarrow> Inl TypeError
      | OneStr s \<Rightarrow> Inr (argv\<lparr>logging := StrArr (js_split CHR '','' s)\<rparr>))"

subsection \<open>Behavior options\<close>

definition compose_behaviorOpts :: "deps \<Rightarrow> resolver \<Rightarrow> config_error + resolver" where
  "compose_behaviorOpts d argv =
     (let argv = argv\<lparr>behaviors := StrArr (split_unless_object (behaviors argv))\<rparr>;
          opts = foldl (\<lambda>opts x. obj_set opts x (Bool True)) []
                   (split_unless_object (behaviors argv));
          argv = (if behaviorTimeout argv \<noteq> 0
                  then argv\<lparr>behaviorTimeout := behaviorTimeout argv * 1000\<rparr> else argv);
          opts = (if behaviorTimeout argv \<noteq> 0
                  then obj_set opts ''timeout'' (Num (behaviorTimeout argv)) else opts)
      in if js_includes (logging argv) ''behaviors'' then
           Inr (argv\<lparr>behaviorOpts :=
                  Some (JSON_stringify (obj_set opts ''log'' (Str (BEHAVIOR_LOG_FUNC d))))\<rparr>)
         else if js_includes (logging argv) ''behaviors-debug'' then
           Inr (argv\<lparr>behaviorsLogDebug := True,
                     behaviorOpts :=
                       Some (JSON_stringify (obj_set opts ''log'' (Str (BEHAVIOR_LOG_FUNC d))))\<rparr>)
         else Inr (argv\<lparr>behaviorOpts := Some (JSON_stringify opts)\<rparr>))"

subsection \<open>Concurrency mode, device, seed file\<close>

definition select_context :: "resolver \<Rightarrow> config_error + resolver" where
  "select_context argv =
     (let argv = (case newContext argv of
                    CtxStr s \<Rightarrow>
                      if s \<noteq> [] then argv\<lparr>console := console argv @ [NewContextDeprecated]\<rparr>
                      else argv
                  | _ \<Rightarrow> argv)
      in if workers argv > 1
         then Inr (argv\<lparr>newContext := ReuseWindowConcurrency,
                        console := console argv @ [WindowContext]\<rparr>)
         else Inr (argv\<lparr>newContext := CONCURRENCY_PAGE,
                        console := console argv @ [PageContext]\<rparr>))"

definition emulate_device :: "deps \<Rightarrow> resolver \<Rightarrow> config_error + resolver" where
  "emulate_device d argv =
     (if truthy_str (mobileDevice argv) then
        (case mobileDevice argv of
           None \<Rightarrow> Inr argv
         | Some name \<Rightarrow>
             if \<not> truthy (devices d name) then Inl (UnknownDevice name)
             else Inr (argv\<lparr>emulateDevice := devices d name\<rparr>))
      else Inr argv)"

fun push_seeds :: "seed list \<Rightarrow> string list \<Rightarrow> seed list" where
  "push_seeds acc [] = acc"
| "push_seeds acc (seed # rest) =
     (if seed \<noteq> [] then push_seeds (acc @ [SeedUrl seed]) rest else push_seeds acc rest)"

definition merge_seedFile :: "deps \<Rightarrow> resolver \<Rightarrow> config_error + resolver" where
  "merge_seedFile d argv =
     (if truthy_str (seedFile argv) then
        (case seedFile argv of
           None \<Rightarrow> Inr argv
         | Some file \<Rightarrow>
             (case readFileSync d file of
                None \<Rightarrow> Inl (ReadFileError file)
              | Some urlSeedFile \<Rightarrow>
                  (let urlSeedFileList = js_split (CHR 0x0A) urlSeedFile;
                       given = (case seeds argv of SeedsStr s \<Rightarrow> [SeedUrl s] | SeedsArr xs \<Rightarrow> xs)
                   in Inr (argv\<lparr>seeds := SeedsArr (push_seeds given urlSeedFileList)\<rparr>))))
      else Inr argv)"

subsection \<open>Network idle wait and scope\<close>

definition resolve_netIdleWait :: "resolver \<Rightarrow> config_error + resolver" where
  "resolve_netIdleWait argv =
     (if netIdleWait argv = -1 then
        (let argv = (if scopeType argv = Some ''page'' \<or> scopeType argv = Some ''page-spa''
                     then argv\<lparr>netIdleWait := 15\<rparr> else argv\<lparr>netIdleWait := 2\<rparr>)
         in Inr (argv\<lparr>console := console argv @ [SetNetIdleWait (netIdleWait argv)]\<rparr>))
      else Inr argv)"

definition include_given :: "strs option \<Rightarrow> bool" where
  \<comment> \<open>\<^verbatim>\<open>argv.include && (typeof(argv.include) === "string" || argv.include.length)\<close>\<close>
  "include_given inc =
     (case inc of
        None \<Rightarrow> False
      | Some v \<Rightarrow> truthy_strs v \<and> (case v of OneStr _ \<Rightarrow> True | StrArr xs \<Rightarrow> length xs \<noteq> 0))"

definition prefer_include :: "resolver \<Rightarrow> config_error + resolver" where
  "prefer_include argv =
     (if include_given (include' argv) then
        (if truthy_str (scopeType argv) \<and> scopeType argv \<noteq> Some ''custom''
         then Inr (argv\<lparr>scopeType := Some ''custom'',
                        console := console argv @ [ScopeOverrideWarning]\<rparr>)
         else Inr argv)
      else Inr argv)"

subsection \<open>Scoped seeds and statistics file\<close>

definition strs_val :: "strs option \<Rightarrow> jsval" where
  "strs_val x = (case x of
       None \<Rightarrow> Undefined
     | Some (OneStr s) \<Rightarrow> Str s
     | Some (StrArr xs) \<Rightarrow> Arr (map Str xs))"

definition scopeOpts :: "resolver \<Rightarrow> (string \<times> jsval) list" where
  "scopeOpts argv =
     [(''scopeType'', opt_str (scopeType argv)),
      (''sitemap'', sitemap argv),
      (''include'', strs_val (include' argv)),
      (''exclude'', strs_val (exclude argv)),
      (''depth'', Num (depth argv)),
      (''extraHops'', Num (extraHops argv))]"

definition seed_iter :: "seeds \<Rightarrow> seed list" where
  \<comment> \<open>\<^verbatim>\<open>for (let seed of argv.seeds)\<close>: a string is iterated character by character\<close>
  "seed_iter x = (case x of SeedsStr s \<Rightarrow> map (\<lambda>c. SeedUrl [c]) s | SeedsArr xs \<Rightarrow> xs)"

definition seed_props :: "seed \<Rightarrow> (string \<times> jsval) list" where
  "seed_props x = (case x of SeedUrl url \<Rightarrow> [(''url'', Str url)] | SeedObj ps \<Rightarrow> ps)"

fun scopedSeeds_loop ::
  "deps \<Rightarrow> (string \<times> jsval) list \<Rightarrow> jsval list \<Rightarrow> seed list \<Rightarrow> config_error + jsval list" where
  "scopedSeeds_loop d opts acc [] = Inr acc"
| "scopedSeeds_loop d opts acc (x # rest) =
     (case ScopedSeed d (obj_spread opts (seed_props x)) of
        Inl e \<Rightarrow> Inl e
      | Inr scoped \<Rightarrow> scopedSeeds_loop d opts (acc @ [scoped]) rest)"

definition build_scopedSeeds :: "deps \<Rightarrow> resolver \<Rightarrow> config_error + resolver" where
  "build_scopedSeeds d argv =
     and_then (scopedSeeds_loop d (scopeOpts argv) [] (seed_iter (seeds argv)))
       (\<lambda>scoped. Inr (argv\<lparr>scopedSeeds := scoped\<rparr>))"

definition resolve_statsFilename :: "deps \<Rightarrow> resolver \<Rightarrow> config_error + resolver" where
  "resolve_statsFilename d argv =
     (if truthy (statsFilename argv) then
        (case statsFilename argv of
           Str name \<Rightarrow> Inr (argv\<lparr>statsFilename := Str (path_resolve d (cwd argv) name)\<rparr>)
         | _ \<Rightarrow> Inl TypeError)
      else Inr argv)"

subsection \<open>The whole check\<close>

definition validate_rest :: "deps \<Rightarrow> resolver \<Rightarrow> config_error + resolver" where
  \<comment> \<open>\<^verbatim>\<open>validateArgs\<close> from \<^verbatim>\<open>argv.timeout *= 1000\<close> on\<close>
  "validate_rest d argv =
     and_then (convert_timeout argv) (\<lambda>argv.
     and_then (check_waitUntil d argv) (\<lambda>argv.
     and_then (validate_screenshot d argv) (\<lambda>argv.
     and_then (split_logging argv) (\<lambda>argv.
     and_then (compose_behaviorOpts d argv) (\<lambda>argv.
     and_then (select_context argv) (\<lambda>argv.
     and_then (emulate_device d argv) (\<lambda>argv.
     and_then (merge_seedFile d argv) (\<lambda>argv.
     and_then (resolve_netIdleWait argv) (\<lambda>argv.
     and_then (prefer_include argv) (\<lambda>argv.
     and_then (build_scopedSeeds d argv) (\<lambda>argv.
     resolve_statsFilename d argv)))))))))))"

definition validateArgs :: "deps \<Rightarrow> resolver \<Rightarrow> config_error + resolver" where
  "validateArgs d argv = and_then (check_collection d argv) (validate_rest d)"


section \<open>Notions used in the statements and proofs\<close>

subsection \<open>Occurrences of a token in a string\<close>

definition occ_at :: "string \<Rightarrow> string \<Rightarrow> nat \<Rightarrow> bool" where
  \<comment> \<open>\<open>tok\<close> occurs in \<open>s\<close> at index \<open>p\<close>\<close>
  "occ_at tok s p = (take (length tok) (drop p s) = tok)"





subsection \<open>The collection name pattern as the specification writes it\<close>

definition spec_first_chars :: "char set" where
  \<comment> \<open>the class \<^verbatim>\<open>[A-Za-z0-9_]\<close>\<close>
  "spec_first_chars =
     set ''ABCDEFGHIJKLMNOPQRSTUVWXYZabcdefghijklmnopqrstuvwxyz0123456789_''"

definition spec_collection_name :: "string \<Rightarrow> bool" where
  \<comment> \<open>\<^verbatim>\<open>^[A-Za-z0-9_][A-Za-z0-9_-]*$\<close>\<close>
  "spec_collection_name s =
     (case s of
        [] \<Rightarrow> False
      | c # cs \<Rightarrow> c \<in> spec_first_chars \<and> set cs \<subseteq> insert CHR ''-'' spec_first_chars)"

subsection \<open>What the steps of validateArgs compute\<close>

definition log_opts :: "deps \<Rightarrow> strs \<Rightarrow> int \<Rightarrow> strs \<Rightarrow> (string \<times> jsval) list" where
  \<comment> \<open>the object \<^verbatim>\<open>behaviorOpts\<close> before it is serialised\<close>
  "log_opts d bs bt lg =
     (let opts = foldl (\<lambda>opts x. obj_set opts x (Bool True)) [] (split_unless_object bs);
          opts = (if bt \<noteq> 0 then obj_set opts ''timeout'' (Num (bt * 1000)) else opts)
      in if js_includes lg ''behaviors'' \<or> js_includes lg ''behaviors-debug''
         then obj_set opts ''log'' (Str (BEHAVIOR_LOG_FUNC d)) else opts)"

definition merged_seeds :: "deps \<Rightarrow> resolver \<Rightarrow> seeds" where
  "merged_seeds d a =
     (case seedFile a of
        None \<Rightarrow> seeds a
      | Some file \<Rightarrow>
          if file = [] then seeds a
          else (case readFileSync d file of
                  None \<Rightarrow> seeds a
                | Some content \<Rightarrow>
                    SeedsArr ((case seeds a of SeedsStr s \<Rightarrow> [SeedUrl s] | SeedsArr xs \<Rightarrow> xs)
                      @ map SeedUrl (filter (\<lambda>s. s \<noteq> []) (js_split (CHR 0x0A) content)))))"

definition overrides :: "resolver \<Rightarrow> bool" where
  "overrides a =
     (include_given (include' a) \<and> truthy_str (scopeType a) \<and> scopeType a \<noteq> Some ''custom'')"

subsection \<open>Sample inputs\<close>

text \<open>
  A host, the four wait conditions named in the comment of \<^verbatim>\<open>validateArgs\<close>, a seed
  file, and the defaults of \<^verbatim>\<open>cliOpts\<close>.
\<close>

definition sample_host :: host where
  "sample_host = \<lparr>hostname = ''crawler-node-0001'', now_iso = ''2023-04-05T06:07:08.090Z''\<rparr>"

definition sample_deps :: deps where
  "sample_deps =
     \<lparr>os = sample_host,
      WAIT_UNTIL_OPTS = [''load'', ''domcontentloaded'', ''networkidle0'', ''networkidle2''],
      BEHAVIOR_LOG_FUNC = ''__bx_log'',
      screenshotTypes = (\<lambda>t. t \<in> set [''view'', ''thumbnail'', ''fullPage'']),
      devices = (\<lambda>name. Undefined),
      readFileSync = [''seeds.txt'' \<mapsto> ''https://b.example/'' @ [CHR 0x0A, CHR 0x0A]
                                      @ ''https://c.example/'' @ [CHR 0x0A]],
      ScopedSeed = (\<lambda>props. Inr (Obj props)),
      path_resolve = (\<lambda>dir name. dir @ ''/'' @ name)\<rparr>"

definition default_argv :: resolver where
  "default_argv =
     \<lparr>collection = ''crawl-@ts'',
      crawlId = ''crawler-node-0001'',
      timeout = Fin 90,
      waitUntil = OneStr ''load'',
      screenshot = OneStr [],
      logging = OneStr ''stats'',
      behaviors = OneStr ''autoplay,autofetch,autoscroll,siteSpecific'',
      behaviorTimeout = 90,
      behaviorsLogDebug = False,
      behaviorOpts = None,
      newContext = CtxNull,
      workers = 1,
      mobileDevice = None,
      emulateDevice = Undefined,
      seedFile = None,
      seeds = SeedsArr [],
      netIdleWait = -1,
      scopeType = None,
      include' = None,
      exclude = None,
      sitemap = Undefined,
      depth = -1,
      extraHops = 0,
      scopedSeeds = [],
      statsFilename = Undefined,
      cwd = ''/crawls'',
      console = []\<rparr>"

definition quiet_world :: world where
  "quiet_world =
     \<lparr>files = [''/crawls/c.wacz'' \<mapsto> [0x61, 0x62, 0x63]],
      objects = Map.empty,
      redis_lists = (\<lambda>conn key. []),
      delivered = [],
      rejects = (\<lambda>e. False),
      trace = []\<rparr>"

definition sample_store :: S3StorageSync where
  "sample_store =
     \<lparr>fullPrefix = ''https://store.example/bucket/crawls/'',
      bucketName = ''bucket'',
      objectPrefix = ''crawls/'',
      userId = Some ''user1'',
      S3StorageSync.crawlId = Some ''crawl1'',
      webhookUrl = Some ''redis://h:6379/0/mykey''\<rparr>"

definition sample_resource :: resource where
  "sample_resource = \<lparr>path = ''c.wacz'', hash = ''ab12'', bytes = 3\<rparr>"


subsection \<open>Notions for the storage client\<close>


definition upload_log_lines :: "S3StorageSync \<Rightarrow> string \<Rightarrow> event list" where
  \<comment> \<open>the four lines \<^verbatim>\<open>uploadFile\<close> prints first\<close>
  "upload_log_lines this targetFilename =
     [ConsoleLog (''Bucket: '' @ bucketName this),
      ConsoleLog (''Crawl Id: '' @ show_opt (S3StorageSync.crawlId this)),
      ConsoleLog (''Prefix: '' @ objectPrefix this),
      ConsoleLog (''Target Filename: '' @ targetFilename)]"

definition notification_doc :: "S3StorageSync \<Rightarrow> string \<Rightarrow> bool \<Rightarrow> resource \<Rightarrow> json" where
  \<comment> \<open>the JSON document of a notification, written out\<close>
  "notification_doc this targetFilename completed res =
     JObj ((case S3StorageSync.crawlId this of None \<Rightarrow> [] | Some i \<Rightarrow> [(''id'', JStr i)])
         @ (case userId this of None \<Rightarrow> [] | Some u \<Rightarrow> [(''user'', JStr u)])
         @ [(''filename'', JStr (fullPrefix this @ targetFilename)),
            (''hash'', JStr (hash res)),
            (''size'', JNum (int (bytes res))),
            (''completed'', JBool completed)])"

definition sample_createHash :: "string \<Rightarrow> byte list \<Rightarrow> byte list" where
  \<comment> \<open>a stand-in for the digest functions of the \<^verbatim>\<open>crypto\<close> library\<close>
  "sample_createHash name fed = rev fed"

section \<open>Splitting a string is the inverse of joining\<close>

lemma js_split_nonempty: "js_split sep s \<noteq> []"
  by (induction s) (auto split: list.splits)

lemma js_join_split: "js_join [sep] (js_split sep s) = s"
proof (induction s)
  case Nil
  then show ?case by simp
next
  case (Cons c cs)
  obtain w ws where w: "js_split sep cs = w # ws"
    using js_split_nonempty[of sep cs] by (cases "js_split sep cs") auto
  with Cons show ?case by (cases ws) auto
qed

lemma js_split_no_sep: "w \<in> set (js_split sep s) \<Longrightarrow> sep \<notin> set w"
proof (induction s arbitrary: w)
  case Nil
  then show ?case by simp
next
  case (Cons c cs)
  obtain v vs where v: "js_split sep cs = v # vs"
    using js_split_nonempty[of sep cs] by (cases "js_split sep cs") auto
  with Cons show ?case by (auto split: if_splits)
qed

section \<open>Occurrences of a token survive the replacement of another\<close>




lemma js_indexOf_None: "js_indexOf s pat = None \<Longrightarrow> \<not> occ_at pat s j"
proof (induction s arbitrary: j)
  case Nil then show ?case by (auto simp: occ_at_def split: if_splits)
next
  case (Cons c cs)
  then show ?case
    by (cases j) (auto simp: occ_at_def startsWith_def split: if_splits)
qed

















section \<open>The product of integers within the exact range\<close>

lemma quotient_of_int': "quotient_of (of_int a) = (a, 1)"
  using quotient_of_int[of a] by (simp add: Rat.of_int_def)

lemma bitlen_one: "bitlen 1 = 1"
  by (simp add: bitlen_alt_def)

lemma ilog2_of_int:
  assumes "0 < m"
  shows "ilog2 (of_int m) = bitlen m - 1"
proof -
  from bitlen_bounds[OF assms] have b: "2 ^ nat (bitlen m - 1) \<le> m" by simp
  have ge: "1 \<le> bitlen m" using assms by (simp add: bitlen_alt_def)
  have "(2::rat) powi (bitlen m - 1) = of_int (2 ^ nat (bitlen m - 1))"
    using ge by (simp add: power_int_def)
  also have "\<dots> \<le> of_int m" using b by (simp only: of_int_le_iff)
  finally show ?thesis
    by (simp add: ilog2_def quotient_of_int' bitlen_one)
qed

lemma round_half_even_of_int: "round_half_even (of_int k) = k"
  by (simp add: round_half_even_def)

lemma round_double_int:
  assumes "n \<noteq> 0" and "\<bar>n\<bar> \<le> 2 ^ 53"
  shows "round_double s (of_int n) = Fin (of_int n)"
proof -
  define m where "m = \<bar>n\<bar>"
  have m: "0 < m" "m \<le> 2 ^ 53" using assms by (simp_all add: m_def)
  define e where "e = bitlen m - 1"
  have il: "ilog2 \<bar>of_int n :: rat\<bar> = e"
    using ilog2_of_int[OF m(1)] by (simp add: m_def e_def)
  have e0: "0 \<le> e" using m(1) by (simp add: e_def bitlen_alt_def)
  from bitlen_bounds[OF m(1)] have lo: "2 ^ nat e \<le> m" by (simp add: e_def)
  have e53: "e \<le> 53"
  proof (rule ccontr)
    assume "\<not> e \<le> 53"
    then have "54 \<le> nat e" by simp
    then have "(2::int) ^ 54 \<le> 2 ^ nat e" by (rule power_increasing) simp
    with lo m(2) show False by simp
  qed
  have r: "of_int (round_half_even (of_int n / 2 powi (e - 52))) * 2 powi (e - 52) = (of_int n :: rat)"
  proof (cases "e \<le> 52")
    case True
    then have u: "(2::rat) powi (e - 52) = 1 / 2 ^ nat (52 - e)"
      by (cases "e = 52") (simp_all add: power_int_def field_simps)
    have "of_int n / (2::rat) powi (e - 52) = of_int (n * 2 ^ nat (52 - e))"
      by (simp add: u)
    then have "round_half_even (of_int n / 2 powi (e - 52)) = n * 2 ^ nat (52 - e)"
      by (simp only: round_half_even_of_int)
    then show ?thesis by (simp add: u)
  next
    case False
    with e53 have e: "e = 53" by simp
    with lo m(2) have "m = 2 ^ 53" by simp
    then have "n = 2 ^ 53 \<or> n = - (2 ^ 53)" by (auto simp: m_def abs_if split: if_splits)
    then show ?thesis by (auto simp: e round_half_even_def power_int_def)
  qed
  have big: "\<not> 1024 \<le> e" using e53 by simp
  have nz: "(of_int n :: rat) \<noteq> 0" using assms(1) by simp
  have mx: "max e (- 1022) = e" using e0 by simp
  show ?thesis
    unfolding round_double_def Let_def il mx r using nz big by simp
qed

lemma js_mul_exact:
  assumes "\<bar>a * b\<bar> \<le> 2 ^ 53" and "0 < b"
  shows "js_mul (Fin (of_int a)) (Fin (of_int b)) = Fin (of_int (a * b))"
proof (cases "a = 0")
  case True
  with assms(2) show ?thesis
    by (simp add: js_mul_def magnitude_def is_neg_def round_double_def signed_zero_def)
next
  case False
  with assms(2) have "a * b \<noteq> 0" by simp
  from round_double_int[OF this assms(1)]
  show ?thesis by (simp add: js_mul_def magnitude_def)
qed

lemma pow2_nat: "0 \<le> k \<Longrightarrow> (2::rat) powi k = of_int (2 ^ nat k)"
  by (simp add: power_int_def)

lemma ilog2_bounds:
  assumes "0 < q"
  shows "2 powi (ilog2 q) \<le> q \<and> q < 2 powi (ilog2 q + 1)"
proof -
  obtain a b where ab: "quotient_of q = (a, b)" by (cases "quotient_of q") auto
  then have b: "0 < b" by (rule quotient_of_denom_pos)
  from ab have q: "q = of_int a / of_int b" by (rule quotient_of_div)
  with assms b have a: "0 < a" by (simp add: zero_less_divide_iff)
  define la where "la = bitlen a"
  define lb where "lb = bitlen b"
  have la: "1 \<le> la" using a by (simp add: la_def bitlen_alt_def)
  have lb: "1 \<le> lb" using b by (simp add: lb_def bitlen_alt_def)
  from bitlen_bounds[OF a] have "2 ^ nat (la - 1) \<le> a" "a < 2 ^ nat la" by (simp_all add: la_def)
  then have A: "(2::rat) powi (la - 1) \<le> of_int a" "of_int a < (2::rat) powi la"
    using la by (simp_all add: pow2_nat del: of_int_power) 
  from bitlen_bounds[OF b] have "2 ^ nat (lb - 1) \<le> b" "b < 2 ^ nat lb" by (simp_all add: lb_def)
  then have B: "(2::rat) powi (lb - 1) \<le> of_int b" "of_int b < (2::rat) powi lb"
    using lb by (simp_all add: pow2_nat del: of_int_power)
  have bp: "0 < (of_int b :: rat)" using b by simp
  have up: "q < 2 powi (la - lb + 1)"
  proof -
    have "q * 2 powi (lb - 1) \<le> q * of_int b" using assms B(1) by simp
    also have "\<dots> = of_int a" using bp by (simp add: q)
    also have "\<dots> < 2 powi la" by (rule A(2))
    also have "\<dots> = 2 powi (la - lb + 1) * 2 powi (lb - 1)"
      by (simp add: power_int_add[symmetric])
    finally show ?thesis by simp
  qed
  have low: "2 powi (la - lb - 1) < q"
  proof -
    have "2 powi (la - lb - 1) * of_int b < 2 powi (la - lb - 1) * (2::rat) powi lb"
      using B(2) by simp
    also have "\<dots> = 2 powi (la - 1)" by (simp add: power_int_add[symmetric])
    also have "\<dots> \<le> of_int a" by (rule A(1))
    also have "\<dots> = q * of_int b" using bp by (simp add: q)
    finally show ?thesis using bp by simp
  qed
  have il: "ilog2 q = (if 2 powi (la - lb) \<le> q then la - lb else la - lb - 1)"
    by (simp add: ilog2_def ab la_def lb_def)
  show ?thesis
  proof (cases "2 powi (la - lb) \<le> q")
    case True
    with up il show ?thesis by simp
  next
    case False
    with low il show ?thesis by simp
  qed
qed

lemma overflow_iff:
  assumes "0 < q"
  shows "1024 \<le> ilog2 q \<longleftrightarrow> 2 powi 1024 \<le> q"
proof
  assume "1024 \<le> ilog2 q"
  then have "(2::rat) powi 1024 \<le> 2 powi (ilog2 q)" by (rule power_int_increasing) simp
  also have "\<dots> \<le> q" using ilog2_bounds[OF assms] by simp
  finally show "2 powi 1024 \<le> q" .
next
  assume h: "2 powi 1024 \<le> q"
  show "1024 \<le> ilog2 q"
  proof (rule ccontr)
    assume "\<not> 1024 \<le> ilog2 q"
    then have "ilog2 q + 1 \<le> 1024" by simp
    then have "(2::rat) powi (ilog2 q + 1) \<le> 2 powi 1024" by (rule power_int_increasing) simp
    with ilog2_bounds[OF assms] h show False by simp
  qed
qed

section \<open>What each step of validateArgs leaves in place\<close>

lemma and_then_Inr: "and_then m f = Inr b \<longleftrightarrow> (\<exists>a. m = Inr a \<and> f a = Inr b)"
  by (cases m) (simp_all add: and_then_def)

lemma and_then_InrE:
  assumes "and_then m f = Inr b"
  obtains a where "m = Inr a" "f a = Inr b"
  using assms by (cases m) (simp_all add: and_then_def)

lemma screenshot_loop_snd:
  "snd (screenshot_loop known (kept, out) xs) =
     out @ map ScreenshotNotFound (filter (\<lambda>x. \<not> known x) xs)"
  by (induction xs arbitrary: kept out) simp_all

lemma push_seeds_eq: "push_seeds acc xs = acc @ map SeedUrl (filter (\<lambda>s. s \<noteq> []) xs)"
  by (induction xs arbitrary: acc) simp_all

lemma convert_timeout_Inr:
  "convert_timeout a = Inr a' \<Longrightarrow> a' = a\<lparr>timeout := js_mul (timeout a) (Fin 1000)\<rparr>"
  by (auto simp: convert_timeout_def)

lemma check_waitUntil_Inr:
  "check_waitUntil d a = Inr a' \<Longrightarrow> a' = a\<lparr>waitUntil := StrArr (split_unless_object (waitUntil a))\<rparr>"
  by (auto simp: check_waitUntil_def and_then_Inr Let_def)

lemma validate_screenshot_Inr:
  "validate_screenshot d a = Inr a' \<Longrightarrow>
     \<exists>s ms. a' = a\<lparr>screenshot := s, console := console a @ ms\<rparr> \<and> ScopeOverrideWarning \<notin> set ms"
proof (cases "truthy_strs (screenshot a)")
  case False
  assume "validate_screenshot d a = Inr a'"
  with False have "a' = a\<lparr>screenshot := screenshot a, console := console a @ []\<rparr>"
    by (simp add: validate_screenshot_def)
  then show ?thesis by (metis empty_iff list.set(1))
next
  case True
  assume r: "validate_screenshot d a = Inr a'"
  with True obtain s where s: "screenshot a = OneStr s"
    by (cases "screenshot a") (auto simp: validate_screenshot_def)
  obtain kept out where lo: "screenshot_loop (screenshotTypes d) ([], console a) (js_split CHR '','' s) = (kept, out)"
    by (cases "screenshot_loop (screenshotTypes d) ([], console a) (js_split CHR '','' s)") auto
  from screenshot_loop_snd[of "screenshotTypes d" "[]" "console a" "js_split CHR '','' s"] lo
  have out: "out = console a @ map ScreenshotNotFound (filter (\<lambda>x. \<not> screenshotTypes d x) (js_split CHR '','' s))"
    by simp
  from r True s lo have "a' = a\<lparr>screenshot := StrArr kept, console := out\<rparr>"
    by (simp add: validate_screenshot_def)
  with out show ?thesis by (intro exI[of _ "StrArr kept"] exI[of _ "map ScreenshotNotFound (filter (\<lambda>x. \<not> screenshotTypes d x) (js_split CHR '','' s))"]) auto
qed

lemma split_logging_Inr:
  "split_logging a = Inr a' \<Longrightarrow>
     \<exists>s. logging a = OneStr s \<and> a' = a\<lparr>logging := StrArr (js_split CHR '','' s)\<rparr>"
  by (cases "logging a") (auto simp: split_logging_def)

lemma compose_behaviorOpts_Inr:
  "compose_behaviorOpts d a = Inr a' \<Longrightarrow>
     a' = a\<lparr>behaviors := StrArr (split_unless_object (behaviors a)),
            behaviorTimeout := behaviorTimeout a * 1000,
            behaviorsLogDebug := (if \<not> js_includes (logging a) ''behaviors'' \<and> js_includes (logging a) ''behaviors-debug''
                                  then True else behaviorsLogDebug a),
            behaviorOpts := Some (JSON_stringify (log_opts d (behaviors a) (behaviorTimeout a) (logging a)))\<rparr>"
  by (auto simp: compose_behaviorOpts_def log_opts_def Let_def split_unless_object_def split: if_splits)

lemma select_context_Inr:
  "select_context a = Inr a' \<Longrightarrow>
     \<exists>c ms. a' = a\<lparr>newContext := c, console := console a @ ms\<rparr> \<and> ScopeOverrideWarning \<notin> set ms"
proof -
  assume r: "select_context a = Inr a'"
  define dep where "dep = (case newContext a of CtxStr s \<Rightarrow> if s \<noteq> [] then [NewContextDeprecated] else [] | _ \<Rightarrow> [])"
  have 1: "(case newContext a of
              CtxStr s \<Rightarrow> if s \<noteq> [] then a\<lparr>console := console a @ [NewContextDeprecated]\<rparr> else a
            | _ \<Rightarrow> a) = a\<lparr>console := console a @ dep\<rparr>"
    by (auto simp: dep_def split: concurrency.splits)
  have 2: "ScopeOverrideWarning \<notin> set dep"
    by (auto simp: dep_def split: concurrency.splits)
  show ?thesis
  proof (cases "workers a > 1")
    case True
    with r 1 have "a' = a\<lparr>newContext := ReuseWindowConcurrency, console := console a @ (dep @ [WindowContext])\<rparr>"
      by (simp add: select_context_def Let_def)
    moreover have "ScopeOverrideWarning \<notin> set (dep @ [WindowContext])" using 2 by simp
    ultimately show ?thesis by blast
  next
    case False
    with r 1 have "a' = a\<lparr>newContext := CONCURRENCY_PAGE, console := console a @ (dep @ [PageContext])\<rparr>"
      by (simp add: select_context_def Let_def)
    moreover have "ScopeOverrideWarning \<notin> set (dep @ [PageContext])" using 2 by simp
    ultimately show ?thesis by blast
  qed
qed

lemma emulate_device_Inr:
  "emulate_device d a = Inr a' \<Longrightarrow> \<exists>e. a' = a\<lparr>emulateDevice := e\<rparr>"
proof -
  assume r: "emulate_device d a = Inr a'"
  then have "a' = a\<lparr>emulateDevice := emulateDevice a\<rparr> \<or> (\<exists>n. a' = a\<lparr>emulateDevice := devices d n\<rparr>)"
    by (auto simp: emulate_device_def split: if_splits option.splits)
  then show ?thesis by blast
qed

lemma merge_seedFile_Inr:
  assumes "merge_seedFile d a = Inr a'"
  shows "a' = a\<lparr>seeds := merged_seeds d a\<rparr>"
proof (cases "seedFile a")
  case None
  with assms show ?thesis by (simp add: merge_seedFile_def merged_seeds_def truthy_str_def)
next
  case (Some fl)
  show ?thesis
  proof (cases "fl = []")
    case True
    with assms Some show ?thesis by (simp add: merge_seedFile_def merged_seeds_def truthy_str_def)
  next
    case False
    show ?thesis
    proof (cases "readFileSync d fl")
      case None
      with assms Some False show ?thesis by (simp add: merge_seedFile_def truthy_str_def)
    next
      case (Some content)
      with assms \<open>seedFile a = Some fl\<close> False show ?thesis
        by (simp add: merge_seedFile_def merged_seeds_def truthy_str_def push_seeds_eq Let_def)
    qed
  qed
qed

lemma resolve_netIdleWait_Inr:
  "resolve_netIdleWait a = Inr a' \<Longrightarrow>
     \<exists>ms. a' = a\<lparr>netIdleWait := (if netIdleWait a = -1
                                   then (if scopeType a = Some ''page'' \<or> scopeType a = Some ''page-spa''
                                         then 15 else 2)
                                   else netIdleWait a),
                 console := console a @ ms\<rparr> \<and> ScopeOverrideWarning \<notin> set ms"
proof (cases "netIdleWait a = -1")
  case False
  assume "resolve_netIdleWait a = Inr a'"
  with False have "a' = a\<lparr>netIdleWait := netIdleWait a, console := console a @ []\<rparr>"
    by (simp add: resolve_netIdleWait_def)
  with False show ?thesis by (intro exI[of _ "[]"]) simp
next
  case True
  assume "resolve_netIdleWait a = Inr a'"
  with True show ?thesis
    by (intro exI[of _ "[SetNetIdleWait (if scopeType a = Some ''page'' \<or> scopeType a = Some ''page-spa'' then 15 else 2)]"])
       (auto simp: resolve_netIdleWait_def Let_def)
qed

lemma prefer_include_Inr:
  "prefer_include a = Inr a' \<Longrightarrow>
     a' = a\<lparr>scopeType := (if overrides a then Some ''custom'' else scopeType a),
            console := console a @ (if overrides a then [ScopeOverrideWarning] else [])\<rparr>"
proof (cases "overrides a")
  case True
  assume "prefer_include a = Inr a'"
  with True show ?thesis by (simp add: prefer_include_def overrides_def)
next
  case False
  assume r: "prefer_include a = Inr a'"
  have "prefer_include a = Inr a"
  proof (cases "include_given (include' a)")
    case True
    with False have c: "(truthy_str (scopeType a) \<and> scopeType a \<noteq> Some ''custom'') = False"
      unfolding overrides_def by blast
    show ?thesis unfolding prefer_include_def c by simp
  next
    case False
    then show ?thesis unfolding prefer_include_def by simp
  qed
  with r have "a' = a" by simp
  with False show ?thesis by simp
qed

lemma build_scopedSeeds_Inr:
  "build_scopedSeeds d a = Inr a' \<Longrightarrow> \<exists>ss. a' = a\<lparr>scopedSeeds := ss\<rparr>"
  by (auto simp: build_scopedSeeds_def and_then_Inr)

lemma resolve_statsFilename_Inr:
  "resolve_statsFilename d a = Inr a' \<Longrightarrow> \<exists>v. a' = a\<lparr>statsFilename := v\<rparr>"
proof -
  assume "resolve_statsFilename d a = Inr a'"
  then have "a' = a\<lparr>statsFilename := statsFilename a\<rparr> \<or> (\<exists>n. a' = a\<lparr>statsFilename := Str (path_resolve d (cwd a) n)\<rparr>)"
    by (auto simp: resolve_statsFilename_def split: if_splits jsval.splits)
  then show ?thesis by blast
qed

lemma validate_rest_fields:
  assumes "validate_rest d a = Inr a'"
  shows "collection a' = collection a"
    and "timeout a' = js_mul (timeout a) (Fin 1000)"
    and "netIdleWait a' = (if netIdleWait a = -1
                           then (if scopeType a = Some ''page'' \<or> scopeType a = Some ''page-spa''
                                 then 15 else 2)
                           else netIdleWait a)"
    and "scopeType a' = (if overrides a then Some ''custom'' else scopeType a)"
    and "include' a' = include' a"
    and "seeds a' = merged_seeds d a"
    and "\<exists>s. logging a = OneStr s \<and> logging a' = StrArr (js_split CHR '','' s)
            \<and> behaviorOpts a' = Some (JSON_stringify
                  (log_opts d (behaviors a) (behaviorTimeout a) (StrArr (js_split CHR '','' s))))
            \<and> behaviorsLogDebug a' =
                (if ''behaviors'' \<notin> set (js_split CHR '','' s) \<and>
                    ''behaviors-debug'' \<in> set (js_split CHR '','' s)
                 then True else behaviorsLogDebug a)"
    and "\<exists>ms. console a' = console a @ ms \<and> (ScopeOverrideWarning \<in> set ms \<longleftrightarrow> overrides a)"
proof -
  from assms obtain a1 a2 a3 a4 a5 a6 a7 a8 a9 a10 a11 where
    s1: "convert_timeout a = Inr a1" and
    s2: "check_waitUntil d a1 = Inr a2" and
    s3: "validate_screenshot d a2 = Inr a3" and
    s4: "split_logging a3 = Inr a4" and
    s5: "compose_behaviorOpts d a4 = Inr a5" and
    s6: "select_context a5 = Inr a6" and
    s7: "emulate_device d a6 = Inr a7" and
    s8: "merge_seedFile d a7 = Inr a8" and
    s9: "resolve_netIdleWait a8 = Inr a9" and
    s10: "prefer_include a9 = Inr a10" and
    s11: "build_scopedSeeds d a10 = Inr a11" and
    s12: "resolve_statsFilename d a11 = Inr a'"
    unfolding validate_rest_def by (elim and_then_InrE) blast
  note e1 = convert_timeout_Inr[OF s1]
  note e2 = check_waitUntil_Inr[OF s2]
  from validate_screenshot_Inr[OF s3] obtain sc ms3 where
    e3: "a3 = a2\<lparr>screenshot := sc, console := console a2 @ ms3\<rparr>"
    and m3: "ScopeOverrideWarning \<notin> set ms3" by blast
  from split_logging_Inr[OF s4] obtain lg where
    l4: "logging a3 = OneStr lg" and e4: "a4 = a3\<lparr>logging := StrArr (js_split CHR '','' lg)\<rparr>"
    by blast
  note e5 = compose_behaviorOpts_Inr[OF s5]
  from select_context_Inr[OF s6] obtain c6 ms6 where
    e6: "a6 = a5\<lparr>newContext := c6, console := console a5 @ ms6\<rparr>"
    and m6: "ScopeOverrideWarning \<notin> set ms6" by blast
  from emulate_device_Inr[OF s7] obtain e where e7: "a7 = a6\<lparr>emulateDevice := e\<rparr>" by blast
  note e8 = merge_seedFile_Inr[OF s8]
  from resolve_netIdleWait_Inr[OF s9] obtain ms9 where
    e9: "a9 = a8\<lparr>netIdleWait := (if netIdleWait a8 = -1
                                   then (if scopeType a8 = Some ''page'' \<or> scopeType a8 = Some ''page-spa''
                                         then 15 else 2)
                                   else netIdleWait a8),
                 console := console a8 @ ms9\<rparr>"
    and m9: "ScopeOverrideWarning \<notin> set ms9" by blast
  note e10 = prefer_include_Inr[OF s10]
  from build_scopedSeeds_Inr[OF s11] obtain ss where e11: "a11 = a10\<lparr>scopedSeeds := ss\<rparr>" by blast
  from resolve_statsFilename_Inr[OF s12] obtain v where e12: "a' = a11\<lparr>statsFilename := v\<rparr>" by blast
  have f1:
    "collection a1 = collection a"
    "timeout a1 = js_mul (timeout a) (Fin 1000)"
    "netIdleWait a1 = netIdleWait a"
    "scopeType a1 = scopeType a"
    "include' a1 = include' a"
    "seeds a1 = seeds a"
    "seedFile a1 = seedFile a"
    "logging a1 = logging a"
    "behaviors a1 = behaviors a"
    "behaviorTimeout a1 = behaviorTimeout a"
    "behaviorOpts a1 = behaviorOpts a"
    "behaviorsLogDebug a1 = behaviorsLogDebug a"
    "console a1 = console a"
    by (simp_all add: e1)
  have f2:
    "collection a2 = collection a1"
    "timeout a2 = timeout a1"
    "netIdleWait a2 = netIdleWait a1"
    "scopeType a2 = scopeType a1"
    "include' a2 = include' a1"
    "seeds a2 = seeds a1"
    "seedFile a2 = seedFile a1"
    "logging a2 = logging a1"
    "behaviors a2 = behaviors a1"
    "behaviorTimeout a2 = behaviorTimeout a1"
    "behaviorOpts a2 = behaviorOpts a1"
    "behaviorsLogDebug a2 = behaviorsLogDebug a1"
    "console a2 = console a1"
    by (simp_all add: e2)
  have f3:
    "collection a3 = collection a2"
    "timeout a3 = timeout a2"
    "netIdleWait a3 = netIdleWait a2"
    "scopeType a3 = scopeType a2"
    "include' a3 = include' a2"
    "seeds a3 = seeds a2"
    "seedFile a3 = seedFile a2"
    "logging a3 = logging a2"
    "behaviors a3 = behaviors a2"
    "behaviorTimeout a3 = behaviorTimeout a2"
    "behaviorOpts a3 = behaviorOpts a2"
    "behaviorsLogDebug a3 = behaviorsLogDebug a2"
    "console a3 = console a2 @ ms3"
    by (simp_all add: e3)
  have f4:
    "collection a4 = collection a3"
    "timeout a4 = timeout a3"
    "netIdleWait a4 = netIdleWait a3"
    "scopeType a4 = scopeType a3"
    "include' a4 = include' a3"
    "seeds a4 = seeds a3"
    "seedFile a4 = seedFile a3"
    "logging a4 = StrArr (js_split CHR '','' lg)"
    "behaviors a4 = behaviors a3"
    "behaviorTimeout a4 = behaviorTimeout a3"
    "behaviorOpts a4 = behaviorOpts a3"
    "behaviorsLogDebug a4 = behaviorsLogDebug a3"
    "console a4 = console a3"
    by (simp_all add: e4)
  have f5:
    "collection a5 = collection a4"
    "timeout a5 = timeout a4"
    "netIdleWait a5 = netIdleWait a4"
    "scopeType a5 = scopeType a4"
    "include' a5 = include' a4"
    "seeds a5 = seeds a4"
    "seedFile a5 = seedFile a4"
    "logging a5 = logging a4"
    "behaviors a5 = StrArr (split_unless_object (behaviors a4))"
    "behaviorTimeout a5 = behaviorTimeout a4 * 1000"
    "behaviorOpts a5 = Some (JSON_stringify (log_opts d (behaviors a4) (behaviorTimeout a4) (logging a4)))"
    "behaviorsLogDebug a5 = (if \<not> js_includes (logging a4) ''behaviors'' \<and> js_includes (logging a4) ''behaviors-debug'' then True else behaviorsLogDebug a4)"
    "console a5 = console a4"
    by (simp_all add: e5)
  have f6:
    "collection a6 = collection a5"
    "timeout a6 = timeout a5"
    "netIdleWait a6 = netIdleWait a5"
    "scopeType a6 = scopeType a5"
    "include' a6 = include' a5"
    "seeds a6 = seeds a5"
    "seedFile a6 = seedFile a5"
    "logging a6 = logging a5"
    "behaviors a6 = behaviors a5"
    "behaviorTimeout a6 = behaviorTimeout a5"
    "behaviorOpts a6 = behaviorOpts a5"
    "behaviorsLogDebug a6 = behaviorsLogDebug a5"
    "console a6 = console a5 @ ms6"
    by (simp_all add: e6)
  have f7:
    "collection a7 = collection a6"
    "timeout a7 = timeout a6"
    "netIdleWait a7 = netIdleWait a6"
    "scopeType a7 = scopeType a6"
    "include' a7 = include' a6"
    "seeds a7 = seeds a6"
    "seedFile a7 = seedFile a6"
    "logging a7 = logging a6"
    "behaviors a7 = behaviors a6"
    "behaviorTimeout a7 = behaviorTimeout a6"
    "behaviorOpts a7 = behaviorOpts a6"
    "behaviorsLogDebug a7 = behaviorsLogDebug a6"
    "console a7 = console a6"
    by (simp_all add: e7)
  have f8:
    "collection a8 = collection a7"
    "timeout a8 = timeout a7"
    "netIdleWait a8 = netIdleWait a7"
    "scopeType a8 = scopeType a7"
    "include' a8 = include' a7"
    "seeds a8 = merged_seeds d a7"
    "seedFile a8 = seedFile a7"
    "logging a8 = logging a7"
    "behaviors a8 = behaviors a7"
    "behaviorTimeout a8 = behaviorTimeout a7"
    "behaviorOpts a8 = behaviorOpts a7"
    "behaviorsLogDebug a8 = behaviorsLogDebug a7"
    "console a8 = console a7"
    by (simp_all add: e8)
  have f9:
    "collection a9 = collection a8"
    "timeout a9 = timeout a8"
    "netIdleWait a9 = (if netIdleWait a8 = -1 then (if scopeType a8 = Some ''page'' \<or> scopeType a8 = Some ''page-spa'' then 15 else 2) else netIdleWait a8)"
    "scopeType a9 = scopeType a8"
    "include' a9 = include' a8"
    "seeds a9 = seeds a8"
    "seedFile a9 = seedFile a8"
    "logging a9 = logging a8"
    "behaviors a9 = behaviors a8"
    "behaviorTimeout a9 = behaviorTimeout a8"
    "behaviorOpts a9 = behaviorOpts a8"
    "behaviorsLogDebug a9 = behaviorsLogDebug a8"
    "console a9 = console a8 @ ms9"
    by (simp_all add: e9)
  have f10:
    "collection a10 = collection a9"
    "timeout a10 = timeout a9"
    "netIdleWait a10 = netIdleWait a9"
    "scopeType a10 = (if overrides a9 then Some ''custom'' else scopeType a9)"
    "include' a10 = include' a9"
    "seeds a10 = seeds a9"
    "seedFile a10 = seedFile a9"
    "logging a10 = logging a9"
    "behaviors a10 = behaviors a9"
    "behaviorTimeout a10 = behaviorTimeout a9"
    "behaviorOpts a10 = behaviorOpts a9"
    "behaviorsLogDebug a10 = behaviorsLogDebug a9"
    "console a10 = console a9 @ (if overrides a9 then [ScopeOverrideWarning] else [])"
    by (simp_all add: e10)
  have f11:
    "collection a11 = collection a10"
    "timeout a11 = timeout a10"
    "netIdleWait a11 = netIdleWait a10"
    "scopeType a11 = scopeType a10"
    "include' a11 = include' a10"
    "seeds a11 = seeds a10"
    "seedFile a11 = seedFile a10"
    "logging a11 = logging a10"
    "behaviors a11 = behaviors a10"
    "behaviorTimeout a11 = behaviorTimeout a10"
    "behaviorOpts a11 = behaviorOpts a10"
    "behaviorsLogDebug a11 = behaviorsLogDebug a10"
    "console a11 = console a10"
    by (simp_all add: e11)
  have f12:
    "collection a' = collection a11"
    "timeout a' = timeout a11"
    "netIdleWait a' = netIdleWait a11"
    "scopeType a' = scopeType a11"
    "include' a' = include' a11"
    "seeds a' = seeds a11"
    "seedFile a' = seedFile a11"
    "logging a' = logging a11"
    "behaviors a' = behaviors a11"
    "behaviorTimeout a' = behaviorTimeout a11"
    "behaviorOpts a' = behaviorOpts a11"
    "behaviorsLogDebug a' = behaviorsLogDebug a11"
    "console a' = console a11"
    by (simp_all add: e12)
  have ov: "overrides a9 = overrides a"
    by (simp only: overrides_def f1 f2 f3 f4 f5 f6 f7 f8 f9)
  have ms: "merged_seeds d a7 = merged_seeds d a"
    by (simp only: merged_seeds_def f1 f2 f3 f4 f5 f6 f7)
  show "collection a' = collection a"
    by (simp only: f1(1) f2(1) f3(1) f4(1) f5(1) f6(1) f7(1) f8(1) f9(1) f10(1) f11(1) f12(1))
  show "timeout a' = js_mul (timeout a) (Fin 1000)"
    by (simp only: f1(2) f2(2) f3(2) f4(2) f5(2) f6(2) f7(2) f8(2) f9(2) f10(2) f11(2) f12(2))
  show "netIdleWait a' = (if netIdleWait a = -1
                           then (if scopeType a = Some ''page'' \<or> scopeType a = Some ''page-spa''
                                 then 15 else 2)
                           else netIdleWait a)"
    by (simp only: f1(3,4) f2(3,4) f3(3,4) f4(3,4) f5(3,4) f6(3,4) f7(3,4) f8(3,4) f9(3) f10(3) f11(3) f12(3))
  show "scopeType a' = (if overrides a then Some ''custom'' else scopeType a)"
    by (simp only: f12(4) f11(4) f10(4) ov f9(4) f8(4) f7(4) f6(4) f5(4) f4(4) f3(4) f2(4) f1(4))
  show "include' a' = include' a"
    by (simp only: f1(5) f2(5) f3(5) f4(5) f5(5) f6(5) f7(5) f8(5) f9(5) f10(5) f11(5) f12(5))
  show "seeds a' = merged_seeds d a"
    by (simp only: f12(6) f11(6) f10(6) f9(6) f8(6) ms)
  have l3: "logging a3 = logging a" by (simp only: f1(8) f2(8) f3(8))
  have b4: "behaviors a4 = behaviors a" "behaviorTimeout a4 = behaviorTimeout a"
      "behaviorsLogDebug a4 = behaviorsLogDebug a"
    by (simp_all only: f1 f2 f3 f4)
  have after: "behaviorOpts a' = behaviorOpts a5" "behaviorsLogDebug a' = behaviorsLogDebug a5"
      "logging a' = logging a5"
    by (simp_all only: f6 f7 f8 f9 f10 f11 f12)
  have "logging a = OneStr lg" using l4 l3 by simp
  moreover have "logging a' = StrArr (js_split CHR '','' lg)"
    by (simp only: after f5(8) f4(8))
  moreover have "behaviorOpts a' = Some (JSON_stringify
                  (log_opts d (behaviors a) (behaviorTimeout a) (StrArr (js_split CHR '','' lg))))"
    by (simp only: after f5(11) b4 f4(8))
  moreover have "behaviorsLogDebug a' =
                (if ''behaviors'' \<notin> set (js_split CHR '','' lg) \<and>
                    ''behaviors-debug'' \<in> set (js_split CHR '','' lg)
                 then True else behaviorsLogDebug a)"
    by (simp only: after f5(12) b4 f4(8)) (simp add: js_includes_def)
  ultimately show "\<exists>s. logging a = OneStr s \<and> logging a' = StrArr (js_split CHR '','' s)
            \<and> behaviorOpts a' = Some (JSON_stringify
                  (log_opts d (behaviors a) (behaviorTimeout a) (StrArr (js_split CHR '','' s))))
            \<and> behaviorsLogDebug a' =
                (if ''behaviors'' \<notin> set (js_split CHR '','' s) \<and>
                    ''behaviors-debug'' \<in> set (js_split CHR '','' s)
                 then True else behaviorsLogDebug a)"
    by blast
  have "console a' = console a @ (ms3 @ ms6 @ ms9 @ (if overrides a then [ScopeOverrideWarning] else []))"
    by (simp only: f12(13) f11(13) f10(13) ov f9(13) f8(13) f7(13) f6(13) f5(13) f4(13) f3(13) f2(13) f1(13) append_assoc)
  moreover have "ScopeOverrideWarning \<in> set (ms3 @ ms6 @ ms9 @ (if overrides a then [ScopeOverrideWarning] else [])) \<longleftrightarrow> overrides a"
    using m3 m6 m9 by simp
  ultimately show "\<exists>ms. console a' = console a @ ms \<and> (ScopeOverrideWarning \<in> set ms \<longleftrightarrow> overrides a)"
    by blast
qed


section \<open>The collection name check and the whole of validateArgs\<close>

lemma word_char_spec: "word_char c \<longleftrightarrow> c \<in> spec_first_chars"
proof -
  have "\<forall>c. word_char c = (c \<in> spec_first_chars)" by code_simp
  then show ?thesis by blast
qed

lemma collection_rx_spec: "collection_rx_search s \<noteq> -1 \<longleftrightarrow> spec_collection_name s"
  by (cases s) (auto simp: collection_rx_search_def spec_collection_name_def word_char_spec list_all_iff)

lemma check_collection_Inr:
  "check_collection d a = Inr a1 \<Longrightarrow>
     a1 = a\<lparr>collection := interpolateFilename (os d) (collection a) (crawlId a)\<rparr>"
  by (simp add: check_collection_def Let_def split: if_splits)

lemma validateArgs_Inr:
  assumes "validateArgs d a = Inr a'"
  shows "validate_rest d (a\<lparr>collection := interpolateFilename (os d) (collection a) (crawlId a)\<rparr>) = Inr a'"
proof -
  from assms obtain a1 where 1: "check_collection d a = Inr a1" and 2: "validate_rest d a1 = Inr a'"
    unfolding validateArgs_def by (rule and_then_InrE)
  from check_collection_Inr[OF 1] 2 show ?thesis by simp
qed

lemma include_given_iff:
  "include_given inc \<longleftrightarrow>
     (\<exists>s. inc = Some (OneStr s) \<and> s \<noteq> []) \<or> (\<exists>xs. inc = Some (StrArr xs) \<and> xs \<noteq> [])"
  by (auto simp: include_given_def truthy_strs_def split: option.splits strs.splits)

lemma map_of_stringify_obj_set:
  "stringify_val v = Some j \<Longrightarrow> map_of (stringify_props (obj_set ps k v)) k = Some j"
proof (induction ps)
  case Nil
  then show ?case by simp
next
  case (Cons kv ps)
  then show ?case by (cases "stringify_val (snd kv)") auto
qed

lemma log_opts_log:
  assumes "js_includes lg ''behaviors'' \<or> js_includes lg ''behaviors-debug''"
  shows "map_of (stringify_props (log_opts d bs bt lg)) ''log'' = Some (JStr (BEHAVIOR_LOG_FUNC d))"
  using assms unfolding log_opts_def Let_def
  by (simp add: map_of_stringify_obj_set)

section \<open>Interpolation of a template without further tokens\<close>

lemma js_indexOf_skip:
  "CHR ''@'' \<notin> set p \<Longrightarrow> js_indexOf s (CHR ''@'' # r) = None \<Longrightarrow>
     js_indexOf (p @ s) (CHR ''@'' # r) = None"
  by (induction p) (auto simp: startsWith_def)


lemma replace_absent:
  "CHR ''@'' \<notin> set p \<Longrightarrow> js_indexOf s (CHR ''@'' # r) = None \<Longrightarrow>
     js_replace (p @ s) (CHR ''@'' # r) rep = p @ s"
  by (simp add: js_replace_def js_indexOf_skip)












section \<open>The storage client step by step\<close>

lemma concat_chunked: "0 < n \<Longrightarrow> concat (chunked n xs) = xs"
proof (induction n xs rule: chunked.induct)
  case (1 n xs)
  show ?case
  proof (cases "xs = []")
    case True
    then show ?thesis by (subst chunked.simps) simp
  next
    case False
    with 1 have "concat (chunked n (drop n xs)) = drop n xs" by simp
    with False 1(2) show ?thesis by (subst chunked.simps) simp
  qed
qed

lemma foldl_hash_update: "foldl hash_update acc cs = acc @ concat cs"
  by (induction cs arbitrary: acc) (simp_all add: hash_update_def)

lemma stream_digest: "foldl hash_update [] (chunked highWaterMark content) = content"
  by (simp add: foldl_hash_update concat_chunked highWaterMark_def)

lemma trace_logs:
  "trace (console_log l4 (console_log l3 (console_log l2 (console_log l1 w)))) =
     trace w @ [ConsoleLog l1, ConsoleLog l2, ConsoleLog l3, ConsoleLog l4]"
  by (simp add: console_log_def attempt_def)

lemma logs_keep:
  "files (console_log l w) = files w" "rejects (console_log l w) = rejects w"
  "objects (console_log l w) = objects w" "redis_lists (console_log l w) = redis_lists w"
  "delivered (console_log l w) = delivered w"
  by (simp_all add: console_log_def attempt_def)

lemma attempt_keep:
  "files (attempt e w) = files w" "rejects (attempt e w) = rejects w"
  "objects (attempt e w) = objects w" "redis_lists (attempt e w) = redis_lists w"
  "delivered (attempt e w) = delivered w" "trace (attempt e w) = trace w @ [e]"
  by (simp_all add: attempt_def)

lemma checksumFile_ok:
  "files w f = Some content \<Longrightarrow> \<not> rejects w (ReadStream f) \<Longrightarrow>
     checksumFile createHash name f w = (Inr (hex (createHash name content)), attempt (ReadStream f) w)"
  by (simp add: checksumFile_def Let_def attempt_keep stream_digest)

lemma uploadFile_unfold:
  "uploadFile createHash this src target w =
     (case fPutObject (bucketName this) (objectPrefix this @ target) src
             (w\<lparr>trace := trace w @ upload_log_lines this target\<rparr>) of
        (Inl e, w) \<Rightarrow> (Inl e, w)
      | (Inr _, w) \<Rightarrow>
          (case checksumFile createHash ''sha256'' src w of
             (Inl e, w) \<Rightarrow> (Inl e, w)
           | (Inr finalHash, w) \<Rightarrow>
               (case getFileSize src w of
                  (Inl e, w) \<Rightarrow> (Inl e, w)
                | (Inr size', w) \<Rightarrow>
                    (Inr \<lparr>path = target, hash = finalHash, bytes = size'\<rparr>, w))))"
  by (simp add: uploadFile_def Let_def console_log_def attempt_def upload_log_lines_def)

lemma upload_ok:
  assumes "uploadFile createHash this src target w = (Inr res, w')"
  shows "\<exists>content. files w src = Some content
         \<and> res = \<lparr>path = target, hash = hex (createHash ''sha256'' content), bytes = length content\<rparr>
         \<and> \<not> rejects w (ReadStream src)
         \<and> w' = w\<lparr>trace := trace w @ upload_log_lines this target
                     @ [FPutObject (bucketName this) (objectPrefix this @ target) src, ReadStream src, Stat src],
                   objects := (objects w)((bucketName this, objectPrefix this @ target) \<mapsto> content)\<rparr>"
  using assms unfolding uploadFile_unfold
  by (auto simp: fPutObject_def checksumFile_def getFileSize_def attempt_def Let_def stream_digest
           split: option.splits if_splits)

lemma redis_scheme:
  assumes "startsWith url ''redis://''"
  shows "url \<noteq> []" "\<not> startsWith url ''http://''" "\<not> startsWith url ''https://''"
proof -
  from assms have "take (length ''redis://'') url = ''redis://''" by (simp only: startsWith_def)
  then have "url = ''redis://'' @ drop (length ''redis://'') url" by (metis append_take_drop_id)
  then obtain rest where u: "url = ''redis://'' @ rest" ..
  show "url \<noteq> []" "\<not> startsWith url ''http://''" "\<not> startsWith url ''https://''"
    unfolding u by (simp_all add: startsWith_def)
qed

lemma notification_doc_eq:
  "JSON_stringify (notification this target completed res) = notification_doc this target completed res"
  by (cases "S3StorageSync.crawlId this"; cases "userId this")
     (simp_all add: JSON_stringify_def notification_def notification_doc_def opt_str_def)

section \<open>Claims about the configuration resolver\<close>

text \<open>
  C7, as amended. The timeout given in seconds is stored multiplied by 1000, once, as
  the language multiplies numbers; for every integer timeout of magnitude at most
  9007199254740 the stored value is exactly the timeout times 1000, and a timeout of 90
  resolves to 90000.
\<close>

theorem timeout_stored_in_ms:
  assumes "validateArgs d a = Inr a'"
  shows "timeout a' = js_mul (timeout a) (Fin 1000)
       \<and> (timeout a = Fin (of_int t) \<and> \<bar>t\<bar> \<le> 9007199254740 \<longrightarrow>
            timeout a' = Fin (of_int (t * 1000)))
       \<and> (timeout a = Fin 90 \<longrightarrow> timeout a' = Fin 90000)"
proof -
  from validate_rest_fields(2)[OF validateArgs_Inr[OF assms]]
  have m: "timeout a' = js_mul (timeout a) (Fin 1000)" by simp
  have k: "js_mul (Fin (of_int i)) (Fin 1000) = Fin (of_int (i * 1000))"
    if "\<bar>i * 1000\<bar> \<le> 2 ^ 53" for i :: int
    using js_mul_exact[OF that, simplified] by simp
  have e: "timeout a = Fin (of_int t) \<and> \<bar>t\<bar> \<le> 9007199254740 \<longrightarrow>
            timeout a' = Fin (of_int (t * 1000))"
  proof
    assume h: "timeout a = Fin (of_int t) \<and> \<bar>t\<bar> \<le> 9007199254740"
    then have "\<bar>t * 1000\<bar> \<le> 2 ^ 53" by (simp add: abs_mult)
    from k[OF this] h m show "timeout a' = Fin (of_int (t * 1000))" by simp
  qed
  have n: "timeout a = Fin 90 \<longrightarrow> timeout a' = Fin 90000"
  proof
    assume "timeout a = Fin 90"
    with m k[of 90] show "timeout a' = Fin 90000" by simp
  qed
  from m e n show ?thesis by blast
qed

theorem timeout_stored_in_ms_witness:
  "\<not> isl (validateArgs sample_deps default_argv)
   \<and> timeout default_argv = Fin 90
   \<and> timeout (projr (validateArgs sample_deps default_argv)) = Fin 90000
   \<and> \<not> isl (validateArgs sample_deps (default_argv\<lparr>timeout := Fin (of_int 9007199254740)\<rparr>))
   \<and> timeout (projr (validateArgs sample_deps
         (default_argv\<lparr>timeout := Fin (of_int 9007199254740)\<rparr>))) = Fin 9007199254740000"
proof -
  let ?b = "default_argv\<lparr>timeout := Fin (of_int 9007199254740)\<rparr>"
  have r: "\<not> isl (validateArgs sample_deps default_argv)" by code_simp
  then have h: "validateArgs sample_deps default_argv = Inr (projr (validateArgs sample_deps default_argv))"
    by simp
  have rb: "\<not> isl (validateArgs sample_deps ?b)" by code_simp
  then have hb: "validateArgs sample_deps ?b = Inr (projr (validateArgs sample_deps ?b))"
    by simp
  have t: "timeout default_argv = Fin 90" by (simp add: default_argv_def)
  have tb: "timeout ?b = Fin (of_int 9007199254740) \<and> \<bar>9007199254740 :: int\<bar> \<le> 9007199254740"
    by simp
  from timeout_stored_in_ms[OF h] t
  have g1: "timeout (projr (validateArgs sample_deps default_argv)) = Fin 90000" by blast
  from timeout_stored_in_ms[OF hb, of 9007199254740] tb
  have "timeout (projr (validateArgs sample_deps ?b)) = Fin (of_int (9007199254740 * 1000))"
    by blast
  then have g2: "timeout (projr (validateArgs sample_deps ?b)) = Fin 9007199254740000" by simp
  from r t g1 rb g2 show ?thesis by blast
qed

text \<open>
  C7 as stated fails: the timeout 9007199254740991 is stored as 9007199254740990976,
  which is not the timeout multiplied by 1000.
\<close>

theorem timeout_rounded_counterexample:
  "\<not> isl (validateArgs sample_deps (default_argv\<lparr>timeout := Fin 9007199254740991\<rparr>))
   \<and> timeout (projr (validateArgs sample_deps (default_argv\<lparr>timeout := Fin 9007199254740991\<rparr>)))
       = Fin 9007199254740990976
   \<and> (9007199254740990976 :: rat) \<noteq> 9007199254740991 * 1000"
  by code_simp

text \<open>
  C8. With \<open>netIdleWait\<close> left at \<open>-1\<close>, the resolved value is 15 when the requested
  scope type is \<open>page\<close> or \<open>page-spa\<close> and 2 for every other scope type, unset
  included; a value other than \<open>-1\<close> is kept.
\<close>

theorem netIdleWait_resolved:
  assumes "validateArgs d a = Inr a'"
  shows "(netIdleWait a = -1 \<longrightarrow>
            netIdleWait a' =
              (if scopeType a = Some ''page'' \<or> scopeType a = Some ''page-spa'' then 15 else 2))
       \<and> (netIdleWait a \<noteq> -1 \<longrightarrow> netIdleWait a' = netIdleWait a)"
proof -
  from validate_rest_fields(3)[OF validateArgs_Inr[OF assms]] show ?thesis by simp
qed

theorem netIdleWait_resolved_witness:
  "\<not> isl (validateArgs sample_deps (default_argv\<lparr>scopeType := Some ''page''\<rparr>))
   \<and> netIdleWait (default_argv\<lparr>scopeType := Some ''page''\<rparr>) = -1
   \<and> netIdleWait (projr (validateArgs sample_deps (default_argv\<lparr>scopeType := Some ''page''\<rparr>))) = 15
   \<and> \<not> isl (validateArgs sample_deps (default_argv\<lparr>scopeType := Some ''domain''\<rparr>))
   \<and> netIdleWait (projr (validateArgs sample_deps (default_argv\<lparr>scopeType := Some ''domain''\<rparr>))) = 2
   \<and> \<not> isl (validateArgs sample_deps (default_argv\<lparr>netIdleWait := 7\<rparr>))
   \<and> netIdleWait (projr (validateArgs sample_deps (default_argv\<lparr>netIdleWait := 7\<rparr>))) = 7"
proof -
  let ?p = "default_argv\<lparr>scopeType := Some ''page''\<rparr>"
  let ?d = "default_argv\<lparr>scopeType := Some ''domain''\<rparr>"
  let ?e = "default_argv\<lparr>netIdleWait := 7\<rparr>"
  have rp: "\<not> isl (validateArgs sample_deps ?p)" by code_simp
  have rd: "\<not> isl (validateArgs sample_deps ?d)" by code_simp
  have re: "\<not> isl (validateArgs sample_deps ?e)" by code_simp
  from rp have hp: "validateArgs sample_deps ?p = Inr (projr (validateArgs sample_deps ?p))" by simp
  from rd have hd: "validateArgs sample_deps ?d = Inr (projr (validateArgs sample_deps ?d))" by simp
  from re have he: "validateArgs sample_deps ?e = Inr (projr (validateArgs sample_deps ?e))" by simp
  have n: "netIdleWait default_argv = -1" "scopeType default_argv = None"
    by (simp_all add: default_argv_def)
  from netIdleWait_resolved[OF hp] netIdleWait_resolved[OF hd] netIdleWait_resolved[OF he] n rp rd re
  show ?thesis by simp
qed

text \<open>
  C9. With a seed file given, the resolved seeds are the seeds given as flags, a single
  string first made a one-element list, followed by the non-empty lines of the file in
  file order.
\<close>

theorem seedFile_merge:
  assumes "validateArgs d a = Inr a'"
    and "seedFile a = Some f" and "f \<noteq> []"
  shows "\<exists>content. readFileSync d f = Some content \<and>
           seeds a' =
             SeedsArr ((case seeds a of SeedsStr s \<Rightarrow> [SeedUrl s] | SeedsArr xs \<Rightarrow> xs)
                        @ map SeedUrl (filter (\<lambda>line. line \<noteq> []) (js_split (CHR 0x0A) content)))"
proof -
  let ?a = "a\<lparr>collection := interpolateFilename (os d) (collection a) (crawlId a)\<rparr>"
  have r: "validate_rest d ?a = Inr a'" using assms(1) by (rule validateArgs_Inr)
  then obtain a1 a2 a3 a4 a5 a6 a7 a8 where
    s: "convert_timeout ?a = Inr a1" "check_waitUntil d a1 = Inr a2"
       "validate_screenshot d a2 = Inr a3" "split_logging a3 = Inr a4"
       "compose_behaviorOpts d a4 = Inr a5" "select_context a5 = Inr a6"
       "emulate_device d a6 = Inr a7" "merge_seedFile d a7 = Inr a8"
    unfolding validate_rest_def by (elim and_then_InrE) blast
  have "seedFile a7 = seedFile ?a"
    using convert_timeout_Inr[OF s(1)] check_waitUntil_Inr[OF s(2)] validate_screenshot_Inr[OF s(3)]
      split_logging_Inr[OF s(4)] compose_behaviorOpts_Inr[OF s(5)] select_context_Inr[OF s(6)]
      emulate_device_Inr[OF s(7)]
    by auto
  with assms(2) have sf: "seedFile a7 = Some f" by simp
  from s(8) sf assms(3) obtain content where c: "readFileSync d f = Some content"
    by (cases "readFileSync d f") (auto simp: merge_seedFile_def truthy_str_def)
  from validate_rest_fields(6)[OF r] have "seeds a' = merged_seeds d ?a" .
  with assms(2,3) c show ?thesis by (simp add: merged_seeds_def)
qed

theorem seedFile_merge_witness:
  "\<not> isl (validateArgs sample_deps
            (default_argv\<lparr>seedFile := Some ''seeds.txt'', seeds := SeedsStr ''https://a.example/''\<rparr>))
   \<and> seeds (projr (validateArgs sample_deps
            (default_argv\<lparr>seedFile := Some ''seeds.txt'', seeds := SeedsStr ''https://a.example/''\<rparr>)))
       = SeedsArr [SeedUrl ''https://a.example/'', SeedUrl ''https://b.example/'',
                   SeedUrl ''https://c.example/'']"
proof -
  let ?x = "default_argv\<lparr>seedFile := Some ''seeds.txt'', seeds := SeedsStr ''https://a.example/''\<rparr>"
  have r: "\<not> isl (validateArgs sample_deps ?x)" by code_simp
  then have h: "validateArgs sample_deps ?x = Inr (projr (validateArgs sample_deps ?x))" by simp
  have f: "seedFile ?x = Some ''seeds.txt''" "''seeds.txt'' \<noteq> []" by simp_all
  have rd: "readFileSync sample_deps ''seeds.txt'' =
      Some (''https://b.example/'' @ [CHR 0x0A, CHR 0x0A] @ ''https://c.example/'' @ [CHR 0x0A])"
    by (simp add: sample_deps_def)
  from seedFile_merge[OF h f] rd r show ?thesis by simp
qed

text \<open>
  C1, as amended. When an include pattern is present and non-empty (a non-empty string
  or a non-empty list) and a scope type was requested, the resolved scope type is
  \<open>custom\<close>, and the warning is printed exactly when the requested scope type was not
  already \<open>custom\<close>. When no scope type was requested it stays unset.
\<close>

theorem include_forces_custom:
  assumes "validateArgs d a = Inr a'"
    and "include' a = Some (OneStr s) \<and> s \<noteq> [] \<or> include' a = Some (StrArr xs) \<and> xs \<noteq> []"
  shows "(truthy_str (scopeType a) \<longrightarrow> scopeType a' = Some ''custom'')
       \<and> (\<not> truthy_str (scopeType a) \<longrightarrow> scopeType a' = scopeType a)
       \<and> (console a = [] \<longrightarrow>
            (ScopeOverrideWarning \<in> set (console a') \<longleftrightarrow>
               truthy_str (scopeType a) \<and> scopeType a \<noteq> Some ''custom''))"
proof -
  let ?a = "a\<lparr>collection := interpolateFilename (os d) (collection a) (crawlId a)\<rparr>"
  have r: "validate_rest d ?a = Inr a'" using assms(1) by (rule validateArgs_Inr)
  have g: "include_given (include' a)" using assms(2) unfolding include_given_iff by blast
  then have ov: "overrides ?a \<longleftrightarrow> truthy_str (scopeType a) \<and> scopeType a \<noteq> Some ''custom''"
    by (simp add: overrides_def)
  from validate_rest_fields(4)[OF r] have st: "scopeType a' = (if overrides ?a then Some ''custom'' else scopeType a)"
    by simp
  from validate_rest_fields(8)[OF r] obtain ms where
    ms: "console a' = console a @ ms" "ScopeOverrideWarning \<in> set ms \<longleftrightarrow> overrides ?a" by auto
  have 1: "truthy_str (scopeType a) \<longrightarrow> scopeType a' = Some ''custom''"
    unfolding st ov by auto
  have 2: "\<not> truthy_str (scopeType a) \<longrightarrow> scopeType a' = scopeType a"
    unfolding st ov by auto
  have 3: "console a = [] \<longrightarrow>
            (ScopeOverrideWarning \<in> set (console a') \<longleftrightarrow>
               truthy_str (scopeType a) \<and> scopeType a \<noteq> Some ''custom'')"
    using ms ov by simp
  from 1 2 3 show ?thesis by blast
qed

theorem include_forces_custom_witness:
  "\<not> isl (validateArgs sample_deps
            (default_argv\<lparr>scopeType := Some ''host'', include' := Some (OneStr ''foo'')\<rparr>))
   \<and> scopeType (projr (validateArgs sample_deps
            (default_argv\<lparr>scopeType := Some ''host'', include' := Some (OneStr ''foo'')\<rparr>)))
       = Some ''custom''
   \<and> ScopeOverrideWarning \<in> set (console (projr (validateArgs sample_deps
            (default_argv\<lparr>scopeType := Some ''host'', include' := Some (OneStr ''foo'')\<rparr>))))"
proof -
  let ?x = "default_argv\<lparr>scopeType := Some ''host'', include' := Some (OneStr ''foo'')\<rparr>"
  have r: "\<not> isl (validateArgs sample_deps ?x)" by code_simp
  then have h: "validateArgs sample_deps ?x = Inr (projr (validateArgs sample_deps ?x))" by simp
  have i: "include' ?x = Some (OneStr ''foo'') \<and> ''foo'' \<noteq> [] \<or> include' ?x = Some (StrArr []) \<and> [] \<noteq> ([] :: string list)"
    by simp
  have c: "console ?x = []" "truthy_str (scopeType ?x)" "scopeType ?x \<noteq> Some ''custom''"
    by (simp_all add: default_argv_def truthy_str_def)
  from include_forces_custom[OF h i] c r show ?thesis by simp
qed

text \<open>
  C1 as stated fails: with an include pattern and no requested scope type, the resolved
  scope type is not \<open>custom\<close>.
\<close>

theorem include_without_scopeType_counterexample:
  "include' (default_argv\<lparr>include' := Some (OneStr ''foo'')\<rparr>) = Some (OneStr ''foo'')
   \<and> \<not> isl (validateArgs sample_deps (default_argv\<lparr>include' := Some (OneStr ''foo'')\<rparr>))
   \<and> scopeType (projr (validateArgs sample_deps (default_argv\<lparr>include' := Some (OneStr ''foo'')\<rparr>)))
       \<noteq> Some ''custom''"
  by code_simp

text \<open>
  C4. The collection name is interpolated once, before the name check: when the
  interpolated name matches \<^verbatim>\<open>^[A-Za-z0-9_][A-Za-z0-9_-]*$\<close> the resolution goes on
  with that name, otherwise it stops with the error that names it; every resolved
  configuration holds the name interpolated once.
\<close>

theorem collection_checked_after_interpolation:
  assumes "c = interpolateFilename (os d) (collection a) (crawlId a)"
  shows "(spec_collection_name c \<longrightarrow> validateArgs d a = validate_rest d (a\<lparr>collection := c\<rparr>))
       \<and> (\<not> spec_collection_name c \<longrightarrow> validateArgs d a = Inl (InvalidCollection c))
       \<and> (validateArgs d a = Inr a' \<longrightarrow> collection a' = c \<and> spec_collection_name c)"
proof -
  have 1: "spec_collection_name c \<longrightarrow> validateArgs d a = validate_rest d (a\<lparr>collection := c\<rparr>)"
  proof
    assume "spec_collection_name c"
    then have "collection_rx_search c \<noteq> -1" using collection_rx_spec by blast
    then show "validateArgs d a = validate_rest d (a\<lparr>collection := c\<rparr>)"
      unfolding assms by (simp add: validateArgs_def check_collection_def and_then_def Let_def)
  qed
  have 2: "\<not> spec_collection_name c \<longrightarrow> validateArgs d a = Inl (InvalidCollection c)"
  proof
    assume "\<not> spec_collection_name c"
    then have "collection_rx_search c = -1" using collection_rx_spec by blast
    then show "validateArgs d a = Inl (InvalidCollection c)"
      unfolding assms by (simp add: validateArgs_def check_collection_def and_then_def Let_def)
  qed
  have 3: "validateArgs d a = Inr a' \<longrightarrow> collection a' = c \<and> spec_collection_name c"
  proof
    assume r: "validateArgs d a = Inr a'"
    from validate_rest_fields(1)[OF validateArgs_Inr[OF r]] have "collection a' = c"
      unfolding assms by simp
    moreover have "spec_collection_name c" using r 2 by auto
    ultimately show "collection a' = c \<and> spec_collection_name c" by simp
  qed
  from 1 2 3 show ?thesis by blast
qed

theorem collection_checked_after_interpolation_witness:
  "interpolateFilename (os sample_deps) ''crawl-@ts'' ''crawler-node-0001'' = ''crawl-20230405060708090''
   \<and> spec_collection_name ''crawl-20230405060708090''
   \<and> \<not> isl (validateArgs sample_deps default_argv)
   \<and> collection (projr (validateArgs sample_deps default_argv)) = ''crawl-20230405060708090''
   \<and> \<not> spec_collection_name ''my coll''
   \<and> validateArgs sample_deps (default_argv\<lparr>collection := ''my coll''\<rparr>)
       = Inl (InvalidCollection ''my coll'')"
proof -
  let ?y = "default_argv\<lparr>collection := ''my coll''\<rparr>"
  have r: "\<not> isl (validateArgs sample_deps default_argv)" by code_simp
  then have h: "validateArgs sample_deps default_argv = Inr (projr (validateArgs sample_deps default_argv))"
    by simp
  have c1: "''crawl-20230405060708090'' = interpolateFilename (os sample_deps) (collection default_argv) (crawlId default_argv)"
    by code_simp
  have c2: "''my coll'' = interpolateFilename (os sample_deps) (collection ?y) (crawlId ?y)"
    by code_simp
  have v1: "spec_collection_name ''crawl-20230405060708090''" by code_simp
  have v2: "\<not> spec_collection_name ''my coll''" by code_simp
  have d: "collection default_argv = ''crawl-@ts''" "crawlId default_argv = ''crawler-node-0001''"
    by (simp_all add: default_argv_def)
  have i: "interpolateFilename (os sample_deps) ''crawl-@ts'' ''crawler-node-0001'' = ''crawl-20230405060708090''"
    by code_simp
  from collection_checked_after_interpolation[OF c1, of "projr (validateArgs sample_deps default_argv)"] h
  have g1: "collection (projr (validateArgs sample_deps default_argv)) = ''crawl-20230405060708090''"
    by blast
  from collection_checked_after_interpolation[OF c2] v2
  have g2: "validateArgs sample_deps ?y = Inl (InvalidCollection ''my coll'')"
    by blast
  from i v1 r g1 v2 g2 show ?thesis by blast
qed


text \<open>
  C5, as amended. When the logging channels include \<open>behaviors\<close> or \<open>behaviors-debug\<close>,
  the behavior options hold the logging hook under the key \<open>log\<close>. The debug flag is
  set when the channels include \<open>behaviors-debug\<close> and not \<open>behaviors\<close>; when they include
  \<open>behaviors\<close> the flag is left as it was.
\<close>

theorem behavior_log_hook:
  assumes "validateArgs d a = Inr a'"
    and "logging a = OneStr s"
    and "chans = js_split CHR '','' s"
  shows "(''behaviors'' \<in> set chans \<or> ''behaviors-debug'' \<in> set chans \<longrightarrow>
            (\<exists>ps. behaviorOpts a' = Some (JObj ps)
                 \<and> map_of ps ''log'' = Some (JStr (BEHAVIOR_LOG_FUNC d))))
       \<and> (''behaviors-debug'' \<in> set chans \<and> ''behaviors'' \<notin> set chans \<longrightarrow> behaviorsLogDebug a')
       \<and> (''behaviors'' \<in> set chans \<longrightarrow> behaviorsLogDebug a' = behaviorsLogDebug a)"
proof -
  let ?a = "a\<lparr>collection := interpolateFilename (os d) (collection a) (crawlId a)\<rparr>"
  have r: "validate_rest d ?a = Inr a'" using assms(1) by (rule validateArgs_Inr)
  from validate_rest_fields(7)[OF r] assms(2,3)
  have bo: "behaviorOpts a' = Some (JSON_stringify (log_opts d (behaviors a) (behaviorTimeout a) (StrArr chans)))"
    and bd: "behaviorsLogDebug a' =
                (if ''behaviors'' \<notin> set chans \<and> ''behaviors-debug'' \<in> set chans
                 then True else behaviorsLogDebug a)"
    by auto
  have 1: "''behaviors'' \<in> set chans \<or> ''behaviors-debug'' \<in> set chans \<longrightarrow>
            (\<exists>ps. behaviorOpts a' = Some (JObj ps)
                 \<and> map_of ps ''log'' = Some (JStr (BEHAVIOR_LOG_FUNC d)))"
  proof
    assume "''behaviors'' \<in> set chans \<or> ''behaviors-debug'' \<in> set chans"
    then have "js_includes (StrArr chans) ''behaviors'' \<or> js_includes (StrArr chans) ''behaviors-debug''"
      by (simp add: js_includes_def)
    from log_opts_log[OF this] bo
    show "\<exists>ps. behaviorOpts a' = Some (JObj ps)
                 \<and> map_of ps ''log'' = Some (JStr (BEHAVIOR_LOG_FUNC d))"
      by (simp add: JSON_stringify_def)
  qed
  from bd have 2: "''behaviors-debug'' \<in> set chans \<and> ''behaviors'' \<notin> set chans \<longrightarrow> behaviorsLogDebug a'"
    by simp
  from bd have 3: "''behaviors'' \<in> set chans \<longrightarrow> behaviorsLogDebug a' = behaviorsLogDebug a"
    by simp
  from 1 2 3 show ?thesis by blast
qed

theorem behavior_log_hook_witness:
  "\<not> isl (validateArgs sample_deps (default_argv\<lparr>logging := OneStr ''stats,behaviors-debug''\<rparr>))
   \<and> js_split CHR '','' ''stats,behaviors-debug'' = [''stats'', ''behaviors-debug'']
   \<and> behaviorsLogDebug (projr (validateArgs sample_deps
         (default_argv\<lparr>logging := OneStr ''stats,behaviors-debug''\<rparr>)))
   \<and> behaviorOpts (projr (validateArgs sample_deps
         (default_argv\<lparr>logging := OneStr ''stats,behaviors-debug''\<rparr>)))
      = Some (JObj [(''autoplay'', JBool True), (''autofetch'', JBool True),
           (''autoscroll'', JBool True), (''siteSpecific'', JBool True),
           (''timeout'', JNum 90000), (''log'', JStr ''__bx_log'')])"
proof -
  let ?x = "default_argv\<lparr>logging := OneStr ''stats,behaviors-debug''\<rparr>"
  have r: "\<not> isl (validateArgs sample_deps ?x)" by code_simp
  then have h: "validateArgs sample_deps ?x = Inr (projr (validateArgs sample_deps ?x))" by simp
  have l: "logging ?x = OneStr ''stats,behaviors-debug''" by simp
  have c: "[''stats'', ''behaviors-debug''] = js_split CHR '','' ''stats,behaviors-debug''" by code_simp
  have o: "behaviorOpts (projr (validateArgs sample_deps ?x))
      = Some (JObj [(''autoplay'', JBool True), (''autofetch'', JBool True),
           (''autoscroll'', JBool True), (''siteSpecific'', JBool True),
           (''timeout'', JNum 90000), (''log'', JStr ''__bx_log'')])" by code_simp
  from behavior_log_hook[OF h l c] have "behaviorsLogDebug (projr (validateArgs sample_deps ?x))"
    by simp
  with r c o show ?thesis by simp
qed

text \<open>
  C5 as stated fails: with both channels given, the debug flag is not set.
\<close>

theorem both_channels_counterexample:
  "js_split CHR '','' ''behaviors,behaviors-debug'' = [''behaviors'', ''behaviors-debug'']
   \<and> \<not> isl (validateArgs sample_deps (default_argv\<lparr>logging := OneStr ''behaviors,behaviors-debug''\<rparr>))
   \<and> \<not> behaviorsLogDebug (projr (validateArgs sample_deps
           (default_argv\<lparr>logging := OneStr ''behaviors,behaviors-debug''\<rparr>)))"
  by code_simp

section \<open>Claims about the storage client\<close>



text \<open>
  C6. A successful upload returns the target name as path, the hexadecimal SHA-256
  digest of exactly the bytes of the file as hash and their number as size; the file
  is read for the digest only after the upload call has returned, and never when that
  call fails; the digest computed again, and once more, on the file is the same.
\<close>

theorem upload_resource:
  "(uploadFile createHash this src target w = (Inr res, w') \<longrightarrow>
      (\<exists>content. files w src = Some content
         \<and> path res = target
         \<and> hash res = hex (createHash ''sha256'' content)
         \<and> bytes res = length content
         \<and> files w' = files w
         \<and> objects w' (bucketName this, objectPrefix this @ target) = Some content
         \<and> trace w' = trace w @ upload_log_lines this target
              @ [FPutObject (bucketName this) (objectPrefix this @ target) src, ReadStream src, Stat src]
         \<and> fst (checksumFile createHash ''sha256'' src w') = Inr (hash res)
         \<and> fst (checksumFile createHash ''sha256'' src
                  (snd (checksumFile createHash ''sha256'' src w'))) = Inr (hash res)))
   \<and> (rejects w (FPutObject (bucketName this) (objectPrefix this @ target) src) \<longrightarrow>
        isl (fst (uploadFile createHash this src target w))
        \<and> ReadStream src \<notin> set (drop (length (trace w))
                                   (trace (snd (uploadFile createHash this src target w)))))"
proof -
  have 1: "uploadFile createHash this src target w = (Inr res, w') \<longrightarrow>
      (\<exists>content. files w src = Some content
         \<and> path res = target
         \<and> hash res = hex (createHash ''sha256'' content)
         \<and> bytes res = length content
         \<and> files w' = files w
         \<and> objects w' (bucketName this, objectPrefix this @ target) = Some content
         \<and> trace w' = trace w @ upload_log_lines this target
              @ [FPutObject (bucketName this) (objectPrefix this @ target) src, ReadStream src, Stat src]
         \<and> fst (checksumFile createHash ''sha256'' src w') = Inr (hash res)
         \<and> fst (checksumFile createHash ''sha256'' src
                  (snd (checksumFile createHash ''sha256'' src w'))) = Inr (hash res))"
  proof
    assume "uploadFile createHash this src target w = (Inr res, w')"
    from upload_ok[OF this] obtain content where
      f: "files w src = Some content" and
      res: "res = \<lparr>path = target, hash = hex (createHash ''sha256'' content), bytes = length content\<rparr>" and
      nr: "\<not> rejects w (ReadStream src)" and
      w': "w' = w\<lparr>trace := trace w @ upload_log_lines this target
                     @ [FPutObject (bucketName this) (objectPrefix this @ target) src, ReadStream src, Stat src],
                   objects := (objects w)((bucketName this, objectPrefix this @ target) \<mapsto> content)\<rparr>"
      by blast
    have k: "files w' = files w" "rejects w' = rejects w" by (simp_all add: w')
    have ob: "objects w' (bucketName this, objectPrefix this @ target) = Some content"
      by (simp add: w')
    have tr: "trace w' = trace w @ upload_log_lines this target
              @ [FPutObject (bucketName this) (objectPrefix this @ target) src, ReadStream src, Stat src]"
      by (simp add: w')
    have again: "checksumFile createHash ''sha256'' src w' =
                   (Inr (hex (createHash ''sha256'' content)), attempt (ReadStream src) w')"
      using f nr by (simp add: checksumFile_ok k)
    have again2: "checksumFile createHash ''sha256'' src (attempt (ReadStream src) w') =
                   (Inr (hex (createHash ''sha256'' content)),
                    attempt (ReadStream src) (attempt (ReadStream src) w'))"
      using f nr by (simp add: checksumFile_ok k attempt_keep)
    have h: "hash res = hex (createHash ''sha256'' content)" "path res = target"
      "bytes res = length content" by (simp_all add: res)
    from f k(1) ob tr h show "\<exists>content. files w src = Some content
         \<and> path res = target
         \<and> hash res = hex (createHash ''sha256'' content)
         \<and> bytes res = length content
         \<and> files w' = files w
         \<and> objects w' (bucketName this, objectPrefix this @ target) = Some content
         \<and> trace w' = trace w @ upload_log_lines this target
              @ [FPutObject (bucketName this) (objectPrefix this @ target) src, ReadStream src, Stat src]
         \<and> fst (checksumFile createHash ''sha256'' src w') = Inr (hash res)
         \<and> fst (checksumFile createHash ''sha256'' src
                  (snd (checksumFile createHash ''sha256'' src w'))) = Inr (hash res)"
      by (simp add: again again2)
  qed
  have 2: "rejects w (FPutObject (bucketName this) (objectPrefix this @ target) src) \<longrightarrow>
        isl (fst (uploadFile createHash this src target w))
        \<and> ReadStream src \<notin> set (drop (length (trace w))
                                   (trace (snd (uploadFile createHash this src target w))))"
    unfolding uploadFile_unfold
    by (cases "files w src") (simp_all add: fPutObject_def Let_def attempt_def upload_log_lines_def)
  from 1 2 show ?thesis by blast
qed

theorem upload_resource_witness:
  "fst (uploadFile sample_createHash sample_store ''/crawls/c.wacz'' ''c.wacz'' quiet_world)
     = Inr \<lparr>path = ''c.wacz'', hash = ''636261'', bytes = 3\<rparr>
   \<and> hex (sample_createHash ''sha256'' [0x61, 0x62, 0x63]) = ''636261''
   \<and> fst (checksumFile sample_createHash ''sha256'' ''/crawls/c.wacz''
            (snd (uploadFile sample_createHash sample_store ''/crawls/c.wacz'' ''c.wacz'' quiet_world)))
        = Inr ''636261''
   \<and> isl (fst (uploadFile sample_createHash sample_store ''/crawls/c.wacz'' ''c.wacz''
                 (quiet_world\<lparr>rejects := (\<lambda>e. True)\<rparr>)))"
proof -
  let ?u = "uploadFile sample_createHash sample_store ''/crawls/c.wacz'' ''c.wacz'' quiet_world"
  let ?r = "\<lparr>path = ''c.wacz'', hash = ''636261'', bytes = 3\<rparr>"
  have x0: "hex (sample_createHash ''sha256'' [0x61, 0x62, 0x63]) = ''636261''" by code_simp
  have f: "fst ?u = Inr ?r"
    by (simp add: uploadFile_unfold fPutObject_def checksumFile_def getFileSize_def attempt_def
          Let_def stream_digest quiet_world_def sample_store_def x0)
  then have h: "?u = (Inr ?r, snd ?u)" by (simp add: prod_eq_iff)
  note x = x0
  have rj: "rejects (quiet_world\<lparr>rejects := (\<lambda>e. True)\<rparr>)
              (FPutObject (bucketName sample_store) (objectPrefix sample_store @ ''c.wacz'') ''/crawls/c.wacz'')"
    by simp
  from upload_resource[of sample_createHash sample_store "''/crawls/c.wacz''" "''c.wacz''" quiet_world ?r "snd ?u"] h
  have a: "fst (checksumFile sample_createHash ''sha256'' ''/crawls/c.wacz'' (snd ?u)) = Inr (hash ?r)"
    by blast
  from upload_resource[of sample_createHash sample_store "''/crawls/c.wacz''" "''c.wacz''" "quiet_world\<lparr>rejects := (\<lambda>e. True)\<rparr>"] rj
  have b: "isl (fst (uploadFile sample_createHash sample_store ''/crawls/c.wacz'' ''c.wacz''
                 (quiet_world\<lparr>rejects := (\<lambda>e. True)\<rparr>)))"
    by blast
  from f x a b show ?thesis by simp
qed

text \<open>
  C2, as amended. For a webhook URL of scheme \<open>redis://\<close>, a URL that does not split on
  the slash into five segments raises the format error with no queue operation
  attempted; on the five-segment form, when the queue server accepts the calls, one
  JSON document is appended to the tail of the list named by the fifth segment. The
  document holds \<open>filename\<close>, \<open>hash\<close>, \<open>size\<close> and \<open>completed\<close>, and holds \<open>id\<close> and
  \<open>user\<close> where the crawl id and the user id are defined.
\<close>

theorem redis_webhook_dispatch:
  assumes "webhookUrl this = Some url" and "startsWith url ''redis://''"
    and "parts = js_split CHR ''/'' url"
    and "conn = js_join ''/'' (take 4 parts)"
    and "doc = notification_doc this target completed res"
    and "w1 = console_log (''Pinging Webhook: '' @ url) w"
  shows "(length parts \<noteq> 5 \<longrightarrow>
            dispatchWebhook this target completed res w = (Inl RedisWebhookFormat, w1))
       \<and> (length parts = 5 \<and> \<not> rejects w (InitRedis conn) \<and> \<not> rejects w (RPush conn (parts ! 4) doc) \<longrightarrow>
            dispatchWebhook this target completed res w =
              (Inr (),
               w1\<lparr>trace := trace w1 @ [InitRedis conn, RPush conn (parts ! 4) doc],
                  redis_lists := (redis_lists w)(conn := (redis_lists w conn)(parts ! 4 :=
                                    redis_lists w conn (parts ! 4) @ [doc]))\<rparr>))"
proof -
  note sch = redis_scheme[OF assms(2)]
  have d: "dispatchWebhook this target completed res w =
             (if length parts \<noteq> 5 then (Inl RedisWebhookFormat, w1)
              else (case initRedis conn w1 of
                      (Inl e, w) \<Rightarrow> (Inl e, w)
                    | (Inr redis, w) \<Rightarrow> rpush redis (parts ! 4) doc w))"
    using assms(1) sch unfolding assms(3,4,5,6) notification_doc_eq[symmetric]
    by (simp add: dispatchWebhook_def Let_def assms(2))
  have k: "rejects w1 = rejects w" "redis_lists w1 = redis_lists w"
    by (simp_all add: assms(6) logs_keep)
  have 1: "length parts \<noteq> 5 \<longrightarrow>
            dispatchWebhook this target completed res w = (Inl RedisWebhookFormat, w1)"
    unfolding d by simp
  have 2: "length parts = 5 \<and> \<not> rejects w (InitRedis conn) \<and> \<not> rejects w (RPush conn (parts ! 4) doc) \<longrightarrow>
            dispatchWebhook this target completed res w =
              (Inr (),
               w1\<lparr>trace := trace w1 @ [InitRedis conn, RPush conn (parts ! 4) doc],
                  redis_lists := (redis_lists w)(conn := (redis_lists w conn)(parts ! 4 :=
                                    redis_lists w conn (parts ! 4) @ [doc]))\<rparr>)"
    unfolding d by (simp add: initRedis_def rpush_def Let_def attempt_def k)
  from 1 2 show ?thesis by blast
qed

theorem redis_webhook_dispatch_witness:
  "js_split CHR ''/'' ''redis://h:6379/0/mykey'' = [''redis:'', [], ''h:6379'', ''0'', ''mykey'']
   \<and> fst (dispatchWebhook sample_store ''c.wacz'' True sample_resource quiet_world) = Inr ()
   \<and> redis_lists (snd (dispatchWebhook sample_store ''c.wacz'' True sample_resource quiet_world))
        ''redis://h:6379/0'' ''mykey''
      = [JObj [(''id'', JStr ''crawl1''), (''user'', JStr ''user1''),
               (''filename'', JStr ''https://store.example/bucket/crawls/c.wacz''),
               (''hash'', JStr ''ab12''), (''size'', JNum 3), (''completed'', JBool True)]]
   \<and> js_split CHR ''/'' ''redis://h:6379/0'' = [''redis:'', [], ''h:6379'', ''0'']
   \<and> dispatchWebhook (sample_store\<lparr>webhookUrl := Some ''redis://h:6379/0''\<rparr>) ''c.wacz'' True
         sample_resource quiet_world
      = (Inl RedisWebhookFormat, console_log ''Pinging Webhook: redis://h:6379/0'' quiet_world)"
proof -
  let ?doc = "JObj [(''id'', JStr ''crawl1''), (''user'', JStr ''user1''),
               (''filename'', JStr ''https://store.example/bucket/crawls/c.wacz''),
               (''hash'', JStr ''ab12''), (''size'', JNum 3), (''completed'', JBool True)]"
  let ?short = "sample_store\<lparr>webhookUrl := Some ''redis://h:6379/0''\<rparr>"
  have u: "webhookUrl sample_store = Some ''redis://h:6379/0/mykey''" by (simp add: sample_store_def)
  have s: "startsWith ''redis://h:6379/0/mykey'' ''redis://''" by (simp add: startsWith_def)
  have p: "[''redis:'', [], ''h:6379'', ''0'', ''mykey''] = js_split CHR ''/'' ''redis://h:6379/0/mykey''"
    by code_simp
  have c: "''redis://h:6379/0'' = js_join ''/'' (take 4 [''redis:'', [], ''h:6379'', ''0'', ''mykey''])"
    by code_simp
  have d: "?doc = notification_doc sample_store ''c.wacz'' True sample_resource" by code_simp
  have nr: "\<not> rejects quiet_world e" for e by (simp add: quiet_world_def)
  have rl: "redis_lists quiet_world = (\<lambda>conn key. [])" by (simp add: quiet_world_def)
  from redis_webhook_dispatch[OF u s p c d refl, of quiet_world] nr
  have ok: "dispatchWebhook sample_store ''c.wacz'' True sample_resource quiet_world =
              (Inr (),
               (console_log ''Pinging Webhook: redis://h:6379/0/mykey'' quiet_world)
                 \<lparr>trace := trace (console_log ''Pinging Webhook: redis://h:6379/0/mykey'' quiet_world)
                             @ [InitRedis ''redis://h:6379/0'', RPush ''redis://h:6379/0'' ''mykey'' ?doc],
                  redis_lists := (redis_lists quiet_world)(''redis://h:6379/0'' :=
                     (redis_lists quiet_world ''redis://h:6379/0'')(''mykey'' :=
                        redis_lists quiet_world ''redis://h:6379/0'' ''mykey'' @ [?doc]))\<rparr>)"
    by simp
  have u2: "webhookUrl ?short = Some ''redis://h:6379/0''" by simp
  have s2: "startsWith ''redis://h:6379/0'' ''redis://''" by (simp add: startsWith_def)
  have p2: "[''redis:'', [], ''h:6379'', ''0''] = js_split CHR ''/'' ''redis://h:6379/0''"
    by code_simp
  from redis_webhook_dispatch[OF u2 s2 p2 refl refl refl, of "''c.wacz''" True sample_resource quiet_world]
  have bad: "dispatchWebhook ?short ''c.wacz'' True sample_resource quiet_world
      = (Inl RedisWebhookFormat, console_log ''Pinging Webhook: redis://h:6379/0'' quiet_world)"
    by simp
  from p p2 bad show ?thesis by (simp add: ok rl)
qed

text \<open>
  C2 as stated fails: with no user id configured, the document pushed has no field
  \<open>user\<close>.
\<close>

theorem notification_without_user_counterexample:
  "webhookUrl (sample_store\<lparr>userId := None\<rparr>) = Some ''redis://h:6379/0/mykey''
   \<and> js_split CHR ''/'' ''redis://h:6379/0/mykey'' = [''redis:'', [], ''h:6379'', ''0'', ''mykey'']
   \<and> redis_lists (snd (dispatchWebhook (sample_store\<lparr>userId := None\<rparr>) ''c.wacz'' True
                         sample_resource quiet_world))
        ''redis://h:6379/0'' ''mykey''
      = [JObj [(''id'', JStr ''crawl1''),
               (''filename'', JStr ''https://store.example/bucket/crawls/c.wacz''),
               (''hash'', JStr ''ab12''), (''size'', JNum 3), (''completed'', JBool True)]]"
  by code_simp

text \<open>
  C3, as amended. For a configured webhook URL whose scheme is none of \<open>http://\<close>,
  \<open>https://\<close> and \<open>redis://\<close>, the dispatch step prints the line that names the URL,
  sends nothing and completes normally.
\<close>

theorem other_scheme_is_noop:
  assumes "webhookUrl this = Some url" and "url \<noteq> []"
    and "\<not> startsWith url ''http://''" and "\<not> startsWith url ''https://''"
    and "\<not> startsWith url ''redis://''"
  shows "dispatchWebhook this target completed res w =
           (Inr (), console_log (''Pinging Webhook: '' @ url) w)
       \<and> (uploadFile createHash this src target w0 = (Inr res, w) \<longrightarrow>
            fst (uploadCollWACZ createHash this src target completed w0) = Inr ())"
proof -
  have 1: "dispatchWebhook this target completed res w =
           (Inr (), console_log (''Pinging Webhook: '' @ url) w)" for w
    using assms by (simp add: dispatchWebhook_def Let_def)
  have 2: "uploadFile createHash this src target w0 = (Inr res, w) \<longrightarrow>
            fst (uploadCollWACZ createHash this src target completed w0) = Inr ()"
    by (simp add: uploadCollWACZ_def 1)
  from 1 2 show ?thesis by blast
qed

theorem other_scheme_is_noop_witness:
  "dispatchWebhook (sample_store\<lparr>webhookUrl := Some ''ftp://example.org/hook''\<rparr>) ''c.wacz'' True
      sample_resource quiet_world
     = (Inr (), console_log ''Pinging Webhook: ftp://example.org/hook'' quiet_world)
   \<and> fst (uploadCollWACZ sample_createHash
            (sample_store\<lparr>webhookUrl := Some ''ftp://example.org/hook''\<rparr>)
            ''/crawls/c.wacz'' ''c.wacz'' True quiet_world) = Inr ()"
proof -
  let ?s = "sample_store\<lparr>webhookUrl := Some ''ftp://example.org/hook''\<rparr>"
  let ?u = "uploadFile sample_createHash ?s ''/crawls/c.wacz'' ''c.wacz'' quiet_world"
  let ?r = "\<lparr>path = ''c.wacz'', hash = ''636261'', bytes = 3\<rparr>"
  have u: "webhookUrl ?s = Some ''ftp://example.org/hook''" by simp
  have n: "''ftp://example.org/hook'' \<noteq> []"
    "\<not> startsWith ''ftp://example.org/hook'' ''http://''"
    "\<not> startsWith ''ftp://example.org/hook'' ''https://''"
    "\<not> startsWith ''ftp://example.org/hook'' ''redis://''"
    by (simp_all add: startsWith_def)
  have x0: "hex (sample_createHash ''sha256'' [0x61, 0x62, 0x63]) = ''636261''" by code_simp
  have f: "fst ?u = Inr ?r"
    by (simp add: uploadFile_unfold fPutObject_def checksumFile_def getFileSize_def attempt_def
          Let_def stream_digest quiet_world_def sample_store_def x0)
  then have h: "?u = (Inr ?r, snd ?u)" by (simp add: prod_eq_iff)
  from other_scheme_is_noop[OF u n, where target="''c.wacz''" and completed=True
         and res=sample_resource and w=quiet_world]
  have a: "dispatchWebhook ?s ''c.wacz'' True sample_resource quiet_world
     = (Inr (), console_log ''Pinging Webhook: ftp://example.org/hook'' quiet_world)" by simp
  from other_scheme_is_noop[OF u n, where createHash=sample_createHash and src="''/crawls/c.wacz''"
         and target="''c.wacz''" and ?w0.0=quiet_world and res="?r" and w="snd ?u" and completed=True] h
  have b: "fst (uploadCollWACZ sample_createHash ?s ''/crawls/c.wacz'' ''c.wacz'' True quiet_world) = Inr ()"
    by blast
  from a b show ?thesis by blast
qed

text \<open>
  C3 as stated fails: a URL of scheme \<open>ftp://\<close> is not rejected.
\<close>

theorem other_scheme_not_rejected_counterexample:
  "webhookUrl (sample_store\<lparr>webhookUrl := Some ''ftp://example.org/hook''\<rparr>)
     = Some ''ftp://example.org/hook''
   \<and> fst (dispatchWebhook (sample_store\<lparr>webhookUrl := Some ''ftp://example.org/hook''\<rparr>)
            ''c.wacz'' True sample_resource quiet_world) = Inr ()
   \<and> trace (snd (dispatchWebhook (sample_store\<lparr>webhookUrl := Some ''ftp://example.org/hook''\<rparr>)
            ''c.wacz'' True sample_resource quiet_world))
       = [ConsoleLog ''Pinging Webhook: ftp://example.org/hook'']"
  by code_simp

end
